theory Spec2Isabelle
  imports Main "HOL-Library.Char_ord" "HOL-Library.List_Lexorder"
begin

section \<open>Data model\<close>

text \<open>
  Modelled from the spec: the protobuf message types of the ONNX library
  (\<^verbatim>\<open>ValueInfoProto\<close>, \<^verbatim>\<open>TypeProto\<close>, \<^verbatim>\<open>TensorShapeProto.Dimension\<close>, \<^verbatim>\<open>TensorProto\<close>,
  \<^verbatim>\<open>NodeProto\<close>, \<^verbatim>\<open>AttributeProto\<close>, \<^verbatim>\<open>GraphProto\<close>) are declared outside
  \<^verbatim>\<open>onnx_model_utils.py\<close>. The types below carry the fields that file reads or writes,
  as section 3 of the specification describes them.

  A dimension is a fixed integer (\<^verbatim>\<open>dim_value\<close>), a named symbolic parameter
  (\<^verbatim>\<open>dim_param\<close>) or unknown (neither field set); \<^verbatim>\<open>HasField\<close> is the constructor test.
  \<^verbatim>\<open>denotation\<close> is the one further field \<^verbatim>\<open>dim.Clear()\<close> resets. The values the
  functions are given are Python integers, so \<open>int\<close>; the field \<^verbatim>\<open>dim_value\<close> is a signed
  64-bit integer, and assigning to it checks the range (\<open>clear_and_set\<close> below).
\<close>

datatype dim_value = DimUnset | DimValue int | DimParam string

datatype dimension = Dimension (dim_val: dim_value) (denotation: string)

text \<open>
  A value's type either has the field \<^verbatim>\<open>tensor_type\<close> or not; a tensor type has an
  optional shape (\<open>None\<close>: no shape declared), which is a list of dimensions.
\<close>

datatype type_proto = TensorType (elem_type: int) (shape: "dimension list option") | OtherType

datatype value_info = ValueInfo (vi_name: string) (vi_type: type_proto)

datatype tensor = Tensor (tensor_name: string)

text \<open>
  A node is identified by the object it is, never by its contents: \<open>nid\<close> stands for
  Python's \<^verbatim>\<open>id(node)\<close>. An attribute either holds a nested graph (\<^verbatim>\<open>attr.HasField('g')\<close>)
  or some other payload, which no function here reads.
\<close>

datatype node = Node (nid: nat) (node_input: "string list") (node_output: "string list")
    (attribute: "attribute list")
and attribute = Attribute (attr_name: string) (attr_g: "graph option")
and graph = Graph (node: "node list") (graph_input: "value_info list")
    (graph_output: "value_info list") (graph_value_info: "value_info list")
    (initializer: "tensor list")

text \<open>
  Every function of the file raises \<^verbatim>\<open>ValueError\<close>; the constructors tell the raise
  sites apart and carry the values formatted into the message:
  \<^item> \<open>NotATensor name\<close>: \<^verbatim>\<open>Input {input_name} is not a tensor\<close>;
  \<^item> \<open>RankMismatch e r\<close>: \<^verbatim>\<open>Rank mismatch. Existing:{e} Replacement:{r}\<close>;
  \<^item> \<open>ValueConflict d f k\<close>:
    \<^verbatim>\<open>Can't replace existing fixed size of {d} with {f} for dimension {k}\<close>;
  \<^item> \<open>InputNotFound name names\<close>: \<^verbatim>\<open>Input {name} was not found in graph inputs.
    Valid input names are: {names}\<close>;
  \<^item> \<open>MissingInputs names\<close>:
    \<^verbatim>\<open>This appears to be an invalid model with missing inputs of {names}\<close>.
  One more \<^verbatim>\<open>ValueError\<close> comes from protobuf itself, when an integer outside the range
  of the field is assigned to \<^verbatim>\<open>dim_value\<close>: \<open>ValueOutOfRange v\<close>.
\<close>

datatype error =
    NotATensor string
  | RankMismatch nat nat
  | ValueConflict int int nat
  | InputNotFound string string
  | MissingInputs string
  | ValueOutOfRange int

text \<open>\<^verbatim>\<open>sep.join(xs)\<close> on strings.\<close>

fun str_join :: "string \<Rightarrow> string list \<Rightarrow> string" where
  "str_join sep [] = []"
| "str_join sep [x] = x"
| "str_join sep (x # y # ys) = x @ sep @ str_join sep (y # ys)"

section \<open>Scoped traversal\<close>

text \<open>
  The functions below rewrite their argument in place and may raise. Each returns the
  object as the call leaves it, together with \<open>Inr ()\<close> or the error raised: what was
  rewritten before an exception stays rewritten, and nothing after it runs.

  \<^verbatim>\<open>iterate_graph_per_graph_func\<close>: the callback runs on the graph first, then the
  traversal descends into the subgraph of every attribute of every node that holds one.
  The callback must leave the node sequence being visited alone (section 4.1 of the
  specification), so the descent is over the nodes of the graph as given and the other
  fields are the callback's.
\<close>

fun iterate_graph_per_graph_func ::
    "(graph \<Rightarrow> graph \<times> (error + unit)) \<Rightarrow> graph \<Rightarrow> graph \<times> (error + unit)"
and iterate_nodes ::
    "(graph \<Rightarrow> graph \<times> (error + unit)) \<Rightarrow> node list \<Rightarrow> node list \<times> (error + unit)"
and iterate_attributes ::
    "(graph \<Rightarrow> graph \<times> (error + unit)) \<Rightarrow> attribute list
      \<Rightarrow> attribute list \<times> (error + unit)" where
  "iterate_graph_per_graph_func per_graph_func (Graph nodes gin gout vinfo inits) =
     (case per_graph_func (Graph nodes gin gout vinfo inits) of
        (Graph _ gin1 gout1 vinfo1 inits1, Inl e) \<Rightarrow>
          (Graph nodes gin1 gout1 vinfo1 inits1, Inl e)
      | (Graph _ gin1 gout1 vinfo1 inits1, Inr u) \<Rightarrow>
          (case iterate_nodes per_graph_func nodes of
             (nodes1, r) \<Rightarrow> (Graph nodes1 gin1 gout1 vinfo1 inits1, r)))"
| "iterate_nodes per_graph_func [] = ([], Inr ())"
| "iterate_nodes per_graph_func (Node n ins outs attrs # rest) =
     (case iterate_attributes per_graph_func attrs of
        (attrs1, Inl e) \<Rightarrow> (Node n ins outs attrs1 # rest, Inl e)
      | (attrs1, Inr u) \<Rightarrow>
          (case iterate_nodes per_graph_func rest of
             (rest1, r) \<Rightarrow> (Node n ins outs attrs1 # rest1, r)))"
| "iterate_attributes per_graph_func [] = ([], Inr ())"
| "iterate_attributes per_graph_func (Attribute nm None # rest) =
     (case iterate_attributes per_graph_func rest of
        (rest1, r) \<Rightarrow> (Attribute nm None # rest1, r))"
| "iterate_attributes per_graph_func (Attribute nm (Some sg) # rest) =
     (case iterate_graph_per_graph_func per_graph_func sg of
        (sg1, Inl e) \<Rightarrow> (Attribute nm (Some sg1) # rest, Inl e)
      | (sg1, Inr u) \<Rightarrow>
          (case iterate_attributes per_graph_func rest of
             (rest1, r) \<Rightarrow> (Attribute nm (Some sg1) # rest1, r)))"

section \<open>Dimension fixer\<close>

text \<open>
  The truth value of a shape message in \<^verbatim>\<open>if shape:\<close>. Reading the field
  \<^verbatim>\<open>tensor_type.shape\<close> always gives a message object, an empty one when the field is
  not set. The protobuf message classes define neither \<^verbatim>\<open>__bool__\<close> nor \<^verbatim>\<open>__len__\<close>, so
  Python takes every such object as true.
\<close>

definition shape_truthy :: "dimension list option \<Rightarrow> bool" where
  "shape_truthy sh = True"

text \<open>\<^verbatim>\<open>shape.dim\<close>: a shape that was never declared reads as one with no dimension.\<close>

definition shape_dim :: "dimension list option \<Rightarrow> dimension list" where
  "shape_dim sh = (case sh of None \<Rightarrow> [] | Some ds \<Rightarrow> ds)"

text \<open>The values of a signed 64-bit field.\<close>

definition in_int64 :: "int \<Rightarrow> bool" where
  "in_int64 v = (- (2 ^ 63) \<le> v \<and> v < 2 ^ 63)"

text \<open>
  \<^verbatim>\<open>dim.Clear(); dim.dim_value = v\<close>: the dimension is cleared, then the assignment
  stores the value, or raises for a value outside the range of the field and leaves the
  dimension cleared.
\<close>

definition clear_and_set :: "int \<Rightarrow> dimension \<times> (error + unit)" where
  "clear_and_set v =
    (if in_int64 v then (Dimension (DimValue v) [], Inr ())
     else (Dimension DimUnset [], Inl (ValueOutOfRange v)))"

text \<open>
  The two loops of \<^verbatim>\<open>update_dim_values\<close>: \<^verbatim>\<open>for dim in shape.dim\<close>, which rewrites a
  dimension that has \<^verbatim>\<open>dim_param\<close> equal to the name, inside \<^verbatim>\<open>for vi in value_infos\<close>.
\<close>

fun update_dims :: "string \<Rightarrow> int \<Rightarrow> dimension list \<Rightarrow> dimension list \<times> (error + unit)" where
  "update_dims param_to_replace val [] = ([], Inr ())"
| "update_dims param_to_replace val (d # ds) =
    (if dim_val d = DimParam param_to_replace then
       (case clear_and_set val of
          (d1, Inl e) \<Rightarrow> (d1 # ds, Inl e)
        | (d1, Inr u) \<Rightarrow>
            (case update_dims param_to_replace val ds of (ds1, r) \<Rightarrow> (d1 # ds1, r)))
     else (case update_dims param_to_replace val ds of (ds1, r) \<Rightarrow> (d # ds1, r)))"

fun update_value_info :: "string \<Rightarrow> int \<Rightarrow> value_info \<Rightarrow> value_info \<times> (error + unit)" where
  "update_value_info param_to_replace val (ValueInfo nm OtherType) =
     (ValueInfo nm OtherType, Inr ())"
| "update_value_info param_to_replace val (ValueInfo nm (TensorType et sh)) =
    (if shape_truthy sh then
       (case update_dims param_to_replace val (shape_dim sh) of
          (ds1, r) \<Rightarrow> (ValueInfo nm (TensorType et (map_option (\<lambda>ds. ds1) sh)), r))
     else (ValueInfo nm (TensorType et sh), Inr ()))"

fun update_dim_values ::
    "string \<Rightarrow> int \<Rightarrow> value_info list \<Rightarrow> value_info list \<times> (error + unit)" where
  "update_dim_values param_to_replace val [] = ([], Inr ())"
| "update_dim_values param_to_replace val (vi # rest) =
    (case update_value_info param_to_replace val vi of
       (vi1, Inl e) \<Rightarrow> (vi1 # rest, Inl e)
     | (vi1, Inr u) \<Rightarrow>
         (case update_dim_values param_to_replace val rest of
            (rest1, r) \<Rightarrow> (vi1 # rest1, r)))"

text \<open>
  \<^verbatim>\<open>_replace_symbolic_dim_value\<close>: the inputs, then the outputs, then the value-infos of
  the graph.
\<close>

definition replace_symbolic_dim_value :: "string \<Rightarrow> int \<Rightarrow> graph \<Rightarrow> graph \<times> (error + unit)" where
  "replace_symbolic_dim_value param_to_replace val gr =
    (case update_dim_values param_to_replace val (graph_input gr) of
       (gin, Inl e) \<Rightarrow>
         (Graph (node gr) gin (graph_output gr) (graph_value_info gr) (initializer gr), Inl e)
     | (gin, Inr u) \<Rightarrow>
         (case update_dim_values param_to_replace val (graph_output gr) of
            (gout, Inl e) \<Rightarrow>
              (Graph (node gr) gin gout (graph_value_info gr) (initializer gr), Inl e)
          | (gout, Inr u) \<Rightarrow>
              (case update_dim_values param_to_replace val (graph_value_info gr) of
                 (vinfo, r) \<Rightarrow> (Graph (node gr) gin gout vinfo (initializer gr), r))))"

definition make_dim_param_fixed :: "graph \<Rightarrow> string \<Rightarrow> int \<Rightarrow> graph \<times> (error + unit)" where
  "make_dim_param_fixed gr param_name val =
     iterate_graph_per_graph_func (replace_symbolic_dim_value param_name val) gr"

text \<open>
  \<^verbatim>\<open>_make_input_shape_fixed\<close>. The loop over \<^verbatim>\<open>shape.dim\<close> reads each dimension from the
  graph as it is at that moment: fixing a symbolic name rewrites the whole graph, the
  input being fixed included.
\<close>

definition input_dims :: "graph \<Rightarrow> nat \<Rightarrow> dimension list" where
  "input_dims gr j =
    (case vi_type (graph_input gr ! j) of
       TensorType et sh \<Rightarrow> shape_dim sh
     | OtherType \<Rightarrow> [])"

text \<open>\<^verbatim>\<open>dim.Clear(); dim.dim_value = v\<close> on dimension \<open>idx\<close> of input \<open>j\<close>.\<close>

definition set_input_dim :: "graph \<Rightarrow> nat \<Rightarrow> nat \<Rightarrow> int \<Rightarrow> graph \<times> (error + unit)" where
  "set_input_dim gr j idx v =
    (case graph_input gr ! j of
       ValueInfo nm (TensorType et sh) \<Rightarrow>
         (case clear_and_set v of
            (d1, r) \<Rightarrow>
              (Graph (node gr)
                 ((graph_input gr)[j := ValueInfo nm
                    (TensorType et (Some ((shape_dim sh)[idx := d1])))])
                 (graph_output gr) (graph_value_info gr) (initializer gr), r))
     | _ \<Rightarrow> (gr, Inr ()))"

text \<open>
  The loop \<^verbatim>\<open>for dim in shape.dim\<close> with its counter \<open>idx\<close>; the third argument is the
  part of \<^verbatim>\<open>fixed_shape\<close> from position \<open>idx\<close> on (the ranks are equal when the loop
  starts, so \<^verbatim>\<open>fixed_shape[idx]\<close> is its head).
\<close>

fun dims_loop :: "nat \<Rightarrow> nat \<Rightarrow> int list \<Rightarrow> graph \<Rightarrow> graph \<times> (error + unit)" where
  "dims_loop j idx [] gr = (gr, Inr ())"
| "dims_loop j idx (f # fs) gr =
    (case dim_val (input_dims gr j ! idx) of
       DimValue v \<Rightarrow>
         if v \<noteq> f then (gr, Inl (ValueConflict v f (idx + 1)))
         else dims_loop j (idx + 1) fs gr
     | DimParam p \<Rightarrow>
         (case make_dim_param_fixed gr p f of
            (gr1, Inl e) \<Rightarrow> (gr1, Inl e)
          | (gr1, Inr u) \<Rightarrow> dims_loop j (idx + 1) fs gr1)
     | DimUnset \<Rightarrow>
         (case set_input_dim gr j idx f of
            (gr1, Inl e) \<Rightarrow> (gr1, Inl e)
          | (gr1, Inr u) \<Rightarrow> dims_loop j (idx + 1) fs gr1))"

text \<open>The search \<^verbatim>\<open>for i in graph.input: if i.name == input_name\<close>, from position \<open>j\<close>.\<close>

fun find_input :: "string \<Rightarrow> value_info list \<Rightarrow> nat \<Rightarrow> nat option" where
  "find_input input_name [] j = None"
| "find_input input_name (i # rest) j =
    (if vi_name i = input_name then Some j else find_input input_name rest (j + 1))"

definition make_input_shape_fixed :: "graph \<Rightarrow> string \<Rightarrow> int list \<Rightarrow> graph \<times> (error + unit)" where
  "make_input_shape_fixed gr input_name fixed_shape =
    (case find_input input_name (graph_input gr) 0 of
       None \<Rightarrow>
         (gr, Inl (InputNotFound input_name (str_join '','' (map vi_name (graph_input gr)))))
     | Some j \<Rightarrow>
         (case vi_type (graph_input gr ! j) of
            OtherType \<Rightarrow> (gr, Inl (NotATensor input_name))
          | TensorType et sh \<Rightarrow>
              if length (shape_dim sh) \<noteq> length fixed_shape
              then (gr, Inl (RankMismatch (length (shape_dim sh)) (length fixed_shape)))
              else dims_loop j 0 fixed_shape gr))"

section \<open>Fixed-shape predicate\<close>

text \<open>
  The loop of \<^verbatim>\<open>is_fixed_size_tensor\<close>: \<^verbatim>\<open>continue\<close> on a dimension with a value greater
  than zero, \<^verbatim>\<open>is_fixed = False; break\<close> on anything else.
\<close>

fun all_dims_fixed :: "dimension list \<Rightarrow> bool" where
  "all_dims_fixed [] = True"
| "all_dims_fixed (d # ds) =
    (case dim_val d of
       DimValue v \<Rightarrow> if v > 0 then all_dims_fixed ds else False
     | _ \<Rightarrow> False)"

definition is_fixed_size_tensor :: "value_info \<Rightarrow> bool" where
  "is_fixed_size_tensor val =
    (case vi_type val of
       TensorType et sh \<Rightarrow> if shape_truthy sh then all_dims_fixed (shape_dim sh) else False
     | OtherType \<Rightarrow> False)"

section \<open>Dependency mapper\<close>

text \<open>
  The two dictionaries map a node to a set of nodes. With the hash that
  \<^verbatim>\<open>get_producer_consumer_maps\<close> installs, two keys are the same key exactly when they
  are the same object, so keys and set members are node identities.
\<close>

type_synonym links = "nat \<rightharpoonup> nat set"

definition create_producer_consumer_link ::
    "links \<Rightarrow> links \<Rightarrow> nat \<Rightarrow> nat \<Rightarrow> links \<times> links" where
  "create_producer_consumer_link node_to_producers node_to_consumers producer consumer =
    (let n2p = (if consumer \<notin> dom node_to_producers
                then node_to_producers(consumer \<mapsto> {}) else node_to_producers);
         n2c = (if producer \<notin> dom node_to_consumers
                then node_to_consumers(producer \<mapsto> {}) else node_to_consumers)
     in (n2p(consumer \<mapsto> insert producer (the (n2p consumer))),
         n2c(producer \<mapsto> insert consumer (the (n2c producer)))))"

definition is_local_value ::
    "(string \<rightharpoonup> nat) \<Rightarrow> string set \<Rightarrow> string set \<Rightarrow> string \<Rightarrow> bool" where
  "is_local_value producers initializers graph_inputs v =
    (v \<in> dom producers \<or> v \<in> initializers \<or> v \<in> graph_inputs)"

text \<open>
  The loop \<^verbatim>\<open>for i in inputs\<close> of node \<open>n\<close>, on the set of implicit inputs and the two
  dictionaries.
\<close>

fun inputs_loop :: "string set \<Rightarrow> string set \<Rightarrow> (string \<rightharpoonup> nat) \<Rightarrow> nat \<Rightarrow> string list
    \<Rightarrow> string set \<times> links \<times> links \<Rightarrow> string set \<times> links \<times> links" where
  "inputs_loop graph_inputs initializers producers n [] acc = acc"
| "inputs_loop graph_inputs initializers producers n (i # rest) (implicit_inputs, n2p, n2c) =
    (if i = [] then
       inputs_loop graph_inputs initializers producers n rest (implicit_inputs, n2p, n2c)
     else if is_local_value producers initializers graph_inputs i then
       (case producers i of
          Some producer \<Rightarrow>
            inputs_loop graph_inputs initializers producers n rest
              (implicit_inputs, create_producer_consumer_link n2p n2c producer n)
        | None \<Rightarrow>
            inputs_loop graph_inputs initializers producers n rest (implicit_inputs, n2p, n2c))
     else
       inputs_loop graph_inputs initializers producers n rest
         (insert i implicit_inputs, n2p, n2c))"

text \<open>The loop \<^verbatim>\<open>for o in node.output: producers[o] = node\<close>.\<close>

fun outputs_loop :: "nat \<Rightarrow> string list \<Rightarrow> (string \<rightharpoonup> nat) \<Rightarrow> (string \<rightharpoonup> nat)" where
  "outputs_loop n [] producers = producers"
| "outputs_loop n (out # rest) producers = outputs_loop n rest (producers(out \<mapsto> n))"

text \<open>
  \<^verbatim>\<open>_map_node_dependencies\<close>, with its loop over the nodes of the graph and its loop
  over the attributes of a node. The two dictionaries are shared by all the calls and
  threaded through them. \<^verbatim>\<open>inputs += subgraph_implicit_inputs\<close> appends the members of a
  set in the order Python iterates it; the model appends them sorted
  (\<open>inputs_loop_set_eq\<close> below shows that the order, and repetitions, make no
  difference to what the loop over the inputs computes).
\<close>

fun map_node_dependencies :: "graph \<Rightarrow> links \<times> links \<Rightarrow> string set \<times> links \<times> links"
and nodes_loop :: "string set \<Rightarrow> string set \<Rightarrow> node list
    \<Rightarrow> (string \<rightharpoonup> nat) \<times> string set \<times> links \<times> links \<Rightarrow> string set \<times> links \<times> links"
and attributes_loop ::
    "attribute list \<Rightarrow> string list \<times> links \<times> links \<Rightarrow> string list \<times> links \<times> links" where
  "map_node_dependencies (Graph nodes gin gout vinfo inits) maps =
     nodes_loop (set (map vi_name gin)) (set (map tensor_name inits)) nodes
       (Map.empty, {}, maps)"
| "nodes_loop graph_inputs initializers [] (producers, implicit_inputs, maps) =
     (implicit_inputs, maps)"
| "nodes_loop graph_inputs initializers (Node n ins outs attrs # rest)
       (producers, implicit_inputs, maps) =
     (case attributes_loop attrs (ins, maps) of
        (inputs, maps1) \<Rightarrow>
          (case inputs_loop graph_inputs initializers producers n inputs
                  (implicit_inputs, maps1) of
             (implicit_inputs1, maps2) \<Rightarrow>
               nodes_loop graph_inputs initializers rest
                 (outputs_loop n outs producers, implicit_inputs1, maps2)))"
| "attributes_loop [] acc = acc"
| "attributes_loop (Attribute nm None # rest) (inputs, maps) =
     attributes_loop rest (inputs, maps)"
| "attributes_loop (Attribute nm (Some sg) # rest) (inputs, maps) =
     (case map_node_dependencies sg maps of
        (subgraph_implicit_inputs, maps1) \<Rightarrow>
          attributes_loop rest (inputs @ sorted_list_of_set subgraph_implicit_inputs, maps1))"

text \<open>
  \<^verbatim>\<open>get_producer_consumer_maps\<close> first assigns \<^verbatim>\<open>onnx.NodeProto.__hash__\<close>, an attribute
  of the class and so of the whole process. \<open>py_state\<close> holds that attribute: the hash
  of a node, or \<open>None\<close> where hashing it raises.
\<close>

record py_state =
  NodeProto_hash :: "node \<Rightarrow> nat option"

definition get_producer_consumer_maps ::
    "py_state \<Rightarrow> graph \<Rightarrow> py_state \<times> (error + links \<times> links)" where
  "get_producer_consumer_maps s gr =
    (let s1 = s\<lparr>NodeProto_hash := (\<lambda>self. Some (nid self))\<rparr> in
     case map_node_dependencies gr (Map.empty, Map.empty) of
       (implicit_inputs, node_to_producers, node_to_consumers) \<Rightarrow>
         if implicit_inputs \<noteq> {}
         then (s1, Inl (MissingInputs (str_join '','' (sorted_list_of_set implicit_inputs))))
         else (s1, Inr (node_to_producers, node_to_consumers)))"

section \<open>Auxiliary notions for the dependency mapper\<close>

text \<open>
  Membership in a dictionary of sets: \<open>b\<close> is a member of \<open>m[a]\<close>. A key that is absent
  has no members.
\<close>

definition member_of :: "links \<Rightarrow> nat \<Rightarrow> nat \<Rightarrow> bool" where
  "member_of m a b = (case m a of None \<Rightarrow> False | Some s \<Rightarrow> b \<in> s)"

text \<open>
  The name-to-producer dictionary of a scope after a run of its nodes has been processed.
\<close>

fun producers_after :: "node list \<Rightarrow> (string \<rightharpoonup> nat) \<Rightarrow> (string \<rightharpoonup> nat)" where
  "producers_after [] producers = producers"
| "producers_after (m # rest) producers =
     producers_after rest (outputs_loop (nid m) (node_output m) producers)"

text \<open>
  What one call of the analysis returns and what it adds to the dictionaries, written
  without the dictionaries: the implicit inputs of a graph, and the set of edges
  (producer, consumer) created for it. \<open>analysis_result\<close> below proves that
  \<open>map_node_dependencies\<close> computes exactly these.
\<close>

fun implicit_of :: "graph \<Rightarrow> string set"
and nodes_implicit :: "string set \<Rightarrow> string set \<Rightarrow> node list \<Rightarrow> (string \<rightharpoonup> nat) \<Rightarrow> string set"
and attrs_implicit :: "attribute list \<Rightarrow> string set" where
  "implicit_of (Graph nodes gin gout vinfo inits) =
     nodes_implicit (set (map vi_name gin)) (set (map tensor_name inits)) nodes Map.empty"
| "nodes_implicit gi ini [] P = {}"
| "nodes_implicit gi ini (Node n ins outs attrs # rest) P =
     {i \<in> set ins \<union> attrs_implicit attrs. i \<noteq> [] \<and> \<not> is_local_value P ini gi i}
     \<union> nodes_implicit gi ini rest (outputs_loop n outs P)"
| "attrs_implicit [] = {}"
| "attrs_implicit (Attribute nm None # rest) = attrs_implicit rest"
| "attrs_implicit (Attribute nm (Some sg) # rest) = implicit_of sg \<union> attrs_implicit rest"

fun graph_edges :: "graph \<Rightarrow> (nat \<times> nat) set"
and nodes_edges :: "node list \<Rightarrow> (string \<rightharpoonup> nat) \<Rightarrow> (nat \<times> nat) set"
and attrs_edges :: "attribute list \<Rightarrow> (nat \<times> nat) set" where
  "graph_edges (Graph nodes gin gout vinfo inits) = nodes_edges nodes Map.empty"
| "nodes_edges [] P = {}"
| "nodes_edges (Node n ins outs attrs # rest) P =
     attrs_edges attrs
     \<union> {(b, n) | b. \<exists>i \<in> set ins \<union> attrs_implicit attrs. i \<noteq> [] \<and> P i = Some b}
     \<union> nodes_edges rest (outputs_loop n outs P)"
| "attrs_edges [] = {}"
| "attrs_edges (Attribute nm None # rest) = attrs_edges rest"
| "attrs_edges (Attribute nm (Some sg) # rest) = graph_edges sg \<union> attrs_edges rest"

text \<open>The dictionaries \<open>maps'\<close> are \<open>maps\<close> with the edges \<open>E\<close> added, in both directions.\<close>

definition adds :: "links \<times> links \<Rightarrow> (nat \<times> nat) set \<Rightarrow> links \<times> links \<Rightarrow> bool" where
  "adds maps E maps' =
    ((\<forall>a b. member_of (fst maps') a b = (member_of (fst maps) a b \<or> (b, a) \<in> E)) \<and>
     (\<forall>a b. member_of (snd maps') a b = (member_of (snd maps) a b \<or> (a, b) \<in> E)))"

text \<open>No key of the dictionary maps to the empty set.\<close>

definition nonempty_values :: "links \<Rightarrow> bool" where
  "nonempty_values m = (\<forall>k S. m k = Some S \<longrightarrow> S \<noteq> {})"

text \<open>
  The set of implicit inputs the analysis of a graph returns. It does not depend on the
  dictionaries the call is given (\<open>implicit_inputs_any\<close>).
\<close>

definition implicit_inputs :: "graph \<Rightarrow> string set" where
  "implicit_inputs gr = fst (map_node_dependencies gr (Map.empty, Map.empty))"

text \<open>
  The names in the list \<^verbatim>\<open>inputs\<close> that the analysis builds for a node: the node's own
  inputs and the implicit inputs of the subgraphs of its attributes.
\<close>

definition effective_inputs :: "node \<Rightarrow> string set" where
  "effective_inputs n =
     set (fst (attributes_loop (attribute n) (node_input n, Map.empty, Map.empty)))"

text \<open>The sets \<^verbatim>\<open>graph_inputs\<close> and \<^verbatim>\<open>initializers\<close> of a scope.\<close>

definition graph_input_names :: "graph \<Rightarrow> string set" where
  "graph_input_names gr = set (map vi_name (graph_input gr))"

definition initializer_names :: "graph \<Rightarrow> string set" where
  "initializer_names gr = set (map tensor_name (initializer gr))"

text \<open>The names that a run of nodes produces.\<close>

definition outputs_of :: "node list \<Rightarrow> string set" where
  "outputs_of ns = (\<Union>m \<in> set ns. set (node_output m))"

text \<open>
  The identities of all the nodes of a graph, nested subgraphs included. Node objects
  are pairwise different, so for a graph that Python can hold the list is \<open>distinct\<close>.
\<close>

fun graph_nid_list :: "graph \<Rightarrow> nat list"
and nodes_nid_list :: "node list \<Rightarrow> nat list"
and attrs_nid_list :: "attribute list \<Rightarrow> nat list" where
  "graph_nid_list (Graph nodes gin gout vinfo inits) = nodes_nid_list nodes"
| "nodes_nid_list [] = []"
| "nodes_nid_list (Node n ins outs attrs # rest) =
     n # attrs_nid_list attrs @ nodes_nid_list rest"
| "attrs_nid_list [] = []"
| "attrs_nid_list (Attribute nm None # rest) = attrs_nid_list rest"
| "attrs_nid_list (Attribute nm (Some sg) # rest) = graph_nid_list sg @ attrs_nid_list rest"

text \<open>The scopes of a graph: the graph itself and every nested subgraph.\<close>

fun graph_scopes :: "graph \<Rightarrow> graph list"
and nodes_scopes :: "node list \<Rightarrow> graph list"
and attrs_scopes :: "attribute list \<Rightarrow> graph list" where
  "graph_scopes (Graph nodes gin gout vinfo inits) =
     Graph nodes gin gout vinfo inits # nodes_scopes nodes"
| "nodes_scopes [] = []"
| "nodes_scopes (Node n ins outs attrs # rest) = attrs_scopes attrs @ nodes_scopes rest"
| "attrs_scopes [] = []"
| "attrs_scopes (Attribute nm None # rest) = attrs_scopes rest"
| "attrs_scopes (Attribute nm (Some sg) # rest) = graph_scopes sg @ attrs_scopes rest"

text \<open>
  The two dictionaries as \<^verbatim>\<open>get_producer_consumer_maps\<close> has built them when it tests
  the implicit inputs of the root.
\<close>

definition built_maps :: "graph \<Rightarrow> links \<times> links" where
  "built_maps gr = snd (map_node_dependencies gr (Map.empty, Map.empty))"

section \<open>The dimension fixer, as the specification words it\<close>

text \<open>
  Following the specification (section 4.3): any dimension entry matching the symbolic
  name becomes a concrete value; dimensions not matching are untouched.
\<close>

definition fix_dim :: "string \<Rightarrow> int \<Rightarrow> dimension \<Rightarrow> dimension" where
  "fix_dim name val d = (if dim_val d = DimParam name then Dimension (DimValue val) [] else d)"

text \<open>
  A function applied to every dimension of every declared shape of the inputs, outputs
  and intermediate value-infos of a graph and of all its nested subgraphs; nothing else
  of the graph is touched (\<open>map_dims_id\<close>).
\<close>

fun map_dims_value_info :: "(dimension \<Rightarrow> dimension) \<Rightarrow> value_info \<Rightarrow> value_info" where
  "map_dims_value_info f (ValueInfo nm OtherType) = ValueInfo nm OtherType"
| "map_dims_value_info f (ValueInfo nm (TensorType et None)) = ValueInfo nm (TensorType et None)"
| "map_dims_value_info f (ValueInfo nm (TensorType et (Some ds))) =
     ValueInfo nm (TensorType et (Some (map f ds)))"

fun map_dims :: "(dimension \<Rightarrow> dimension) \<Rightarrow> graph \<Rightarrow> graph"
and map_dims_nodes :: "(dimension \<Rightarrow> dimension) \<Rightarrow> node list \<Rightarrow> node list"
and map_dims_attributes :: "(dimension \<Rightarrow> dimension) \<Rightarrow> attribute list \<Rightarrow> attribute list" where
  "map_dims f (Graph nodes gin gout vinfo inits) =
     Graph (map_dims_nodes f nodes) (map (map_dims_value_info f) gin)
       (map (map_dims_value_info f) gout) (map (map_dims_value_info f) vinfo) inits"
| "map_dims_nodes f [] = []"
| "map_dims_nodes f (Node n ins outs attrs # rest) =
     Node n ins outs (map_dims_attributes f attrs) # map_dims_nodes f rest"
| "map_dims_attributes f [] = []"
| "map_dims_attributes f (Attribute nm None # rest) =
     Attribute nm None # map_dims_attributes f rest"
| "map_dims_attributes f (Attribute nm (Some sg) # rest) =
     Attribute nm (Some (map_dims f sg)) # map_dims_attributes f rest"

text \<open>The value has a tensor type.\<close>

definition is_tensor :: "value_info \<Rightarrow> bool" where
  "is_tensor vi = (vi_type vi \<noteq> OtherType)"

text \<open>
  The value the loop of \<^verbatim>\<open>_make_input_shape_fixed\<close> finds at position \<open>i\<close> of a declared
  shape \<open>ds\<close> when the requested shape is \<open>fs\<close> and no earlier position has stopped it: the
  declared value of a fixed dimension; nothing for an unknown dimension; for a symbolic
  dimension, the value requested at the first earlier position with the same name (the
  loop has replaced the name by it everywhere), and nothing when there is none.
\<close>

definition found_value :: "dimension list \<Rightarrow> int list \<Rightarrow> nat \<Rightarrow> int option" where
  "found_value ds fs i =
    (case dim_val (ds ! i) of
       DimValue d \<Rightarrow> Some d
     | DimUnset \<Rightarrow> None
     | DimParam p \<Rightarrow> map_of (zip (map dim_val (take i ds)) fs) (DimParam p))"

section \<open>Example inputs\<close>

text \<open>
  The graph of the docstring of \<^verbatim>\<open>get_producer_consumer_maps\<close>: nodes 1 and 2 feed
  node 3, which feeds node 4.
\<close>

definition example_graph :: graph where
  "example_graph =
     Graph [Node 1 [] [''a''] [], Node 2 [] [''b''] [],
            Node 3 [''a'', ''b''] [''c''] [], Node 4 [''c''] [''d''] []] [] [] [] []"

definition no_hash :: py_state where
  "no_hash = \<lparr>NodeProto_hash = (\<lambda>self. None)\<rparr>"

text \<open>
  The example of the specification: the symbolic name \<open>batch\<close> in an input, in an
  intermediate value-info and in an output of a nested subgraph.
\<close>

definition batch_graph :: graph where
  "batch_graph =
     Graph [Node 1 [''in''] [''mid''] [Attribute ''body'' (Some
              (Graph [] [] [ValueInfo ''r'' (TensorType 1 (Some
                 [Dimension (DimParam ''batch'') ''d'', Dimension (DimParam ''seq'') []]))] [] []))]]
       [ValueInfo ''in'' (TensorType 1 (Some
          [Dimension (DimParam ''batch'') [], Dimension (DimValue 3) [],
           Dimension (DimValue 224) [], Dimension (DimValue 224) []]))]
       [ValueInfo ''out'' (TensorType 1 None)]
       [ValueInfo ''mid'' (TensorType 1 (Some
          [Dimension (DimParam ''batch'') [], Dimension DimUnset []]))]
       [Tensor ''w'']"

text \<open>An input declared with the shape \<open>[1, 3, 224, 224]\<close>.\<close>

definition image_graph :: graph where
  "image_graph =
     Graph [] [ValueInfo ''x'' (TensorType 1 (Some
          [Dimension (DimValue 1) [], Dimension (DimValue 3) [],
           Dimension (DimValue 224) [], Dimension (DimValue 224) []]))] [] [] []"

text \<open>
  An input whose first dimension is unknown, and one whose first and third dimensions
  share a symbolic name.
\<close>

definition unknown_dim_graph :: graph where
  "unknown_dim_graph =
     Graph [] [ValueInfo ''x'' (TensorType 1 (Some
          [Dimension DimUnset [], Dimension (DimValue 3) []]))] [] [] []"

definition symbolic_graph :: graph where
  "symbolic_graph =
     Graph [] [ValueInfo ''x'' (TensorType 1 (Some
          [Dimension (DimParam ''N'') [], Dimension (DimValue 3) [],
           Dimension (DimParam ''N'') [], Dimension (DimValue 224) []]))] [] [] []"

text \<open>Graphs for the dependency mapper.\<close>

definition missing_graph :: graph where
  "missing_graph =
     Graph [Node 1 [''zeta'', ''alpha'', [], ''k''] [''y'']
              [Attribute ''body'' (Some (Graph [Node 2 [''beta'', ''w'', ''alpha''] [''u''] []]
                  [] [] [] [Tensor ''w'']))],
            Node 3 [''y'', ''c''] [''z''] []]
       [ValueInfo ''k'' OtherType] [] [] [Tensor ''c'']"

definition order_graph :: graph where
  "order_graph =
     Graph [Node 1 [''late''] [''a''] [],
            Node 2 [''a''] [''late'']
              [Attribute ''body'' (Some
                 (Graph [Node 3 [''q''] [''r''] [], Node 4 [''r'', ''a''] [''q''] []]
                    [] [] [] []))]]
       [] [] [] []"

definition shadowed_input_graph :: graph where
  "shadowed_input_graph =
     Graph [Node 1 [''x''] [''a''] [], Node 2 [] [''x''] []] [ValueInfo ''x'' OtherType] [] [] []"

definition unnamed_output_graph :: graph where
  "unnamed_output_graph =
     Graph [Node 1 [''in'', []] [''a''] [], Node 2 [''a''] [''y'', []] []]
       [ValueInfo ''in'' OtherType] [] [] []"


definition shadow_graph :: graph where
  "shadow_graph =
     Graph [Node 1 [] [''x''] [], Node 2 [] [''x''] [], Node 3 [''x''] [''z''] []] [] [] [] []"

definition two_outputs_graph :: graph where
  "two_outputs_graph =
     Graph [Node 1 [] [''x'', ''y''] [], Node 2 [] [''x''] [], Node 3 [''x'', ''y''] [''z''] []]
       [] [] [] []"



section \<open>What the analysis computes\<close>

lemma create_link_member_producers:
  "member_of (fst (create_producer_consumer_link p c pr co)) a b =
     (member_of p a b \<or> (a = co \<and> b = pr))"
  by (auto simp: create_producer_consumer_link_def member_of_def Let_def dom_def
      split: option.splits)

lemma create_link_member_consumers:
  "member_of (snd (create_producer_consumer_link p c pr co)) a b =
     (member_of c a b \<or> (a = pr \<and> b = co))"
  by (auto simp: create_producer_consumer_link_def member_of_def Let_def dom_def
      split: option.splits)

lemma inputs_loop_Cons:
  "inputs_loop gi ini P n (i # rest) (imp, maps) =
    (if i = [] then inputs_loop gi ini P n rest (imp, maps)
     else if is_local_value P ini gi i then
       (case P i of
          Some producer \<Rightarrow>
            inputs_loop gi ini P n rest
              (imp, create_producer_consumer_link (fst maps) (snd maps) producer n)
        | None \<Rightarrow> inputs_loop gi ini P n rest (imp, maps))
     else inputs_loop gi ini P n rest (insert i imp, maps))"
  by (cases maps; cases "P i"; simp)

lemma inputs_loop_implicit:
  "fst (inputs_loop gi ini P n xs (imp, maps)) =
     imp \<union> {i \<in> set xs. i \<noteq> [] \<and> \<not> is_local_value P ini gi i}"
proof (induction xs arbitrary: imp maps)
  case Nil
  then show ?case by simp
next
  case (Cons i xs)
  show ?case
  proof (cases "P i")
    case None
    then show ?thesis using Cons [of imp maps] Cons [of "insert i imp" maps]
      by (simp add: inputs_loop_Cons del: inputs_loop.simps(2)) blast
  next
    case (Some pr)
    then have "is_local_value P ini gi i" by (auto simp: is_local_value_def)
    then show ?thesis using Some Cons [of imp maps]
        Cons [of imp "create_producer_consumer_link (fst maps) (snd maps) pr n"]
      by (simp add: inputs_loop_Cons del: inputs_loop.simps(2)) blast
  qed
qed

lemma adds_empty: "adds maps {} maps"
  by (simp add: adds_def)

lemma adds_trans: "adds m0 E m1 \<Longrightarrow> adds m1 F m2 \<Longrightarrow> adds m0 (E \<union> F) m2"
  by (auto simp: adds_def)

lemma create_link_adds:
  "adds maps {(pr, co)} (create_producer_consumer_link (fst maps) (snd maps) pr co)"
  by (auto simp: adds_def create_link_member_producers create_link_member_consumers)

lemma inputs_loop_adds:
  "adds maps {(b, n) | b. \<exists>i \<in> set xs. i \<noteq> [] \<and> P i = Some b}
     (snd (inputs_loop gi ini P n xs (imp, maps)))"
proof (induction xs arbitrary: imp maps)
  case Nil
  then show ?case by (simp add: adds_empty)
next
  case (Cons i xs)
  let ?E = "{(b, n) | b. \<exists>i \<in> set xs. i \<noteq> [] \<and> P i = Some b}"
  let ?F = "{(b, n) | b. \<exists>j \<in> set (i # xs). j \<noteq> [] \<and> P j = Some b}"
  show ?case
  proof (cases "i \<noteq> [] \<and> P i \<noteq> None")
    case True
    then obtain pr where pr: "P i = Some pr" by auto
    have loc: "is_local_value P ini gi i" using pr by (auto simp: is_local_value_def)
    let ?m = "create_producer_consumer_link (fst maps) (snd maps) pr n"
    have step: "inputs_loop gi ini P n (i # xs) (imp, maps) = inputs_loop gi ini P n xs (imp, ?m)"
      using True pr loc by (simp add: inputs_loop_Cons del: inputs_loop.simps(2))
    have "adds maps ({(pr, n)} \<union> ?E) (snd (inputs_loop gi ini P n xs (imp, ?m)))"
      using adds_trans [OF create_link_adds Cons] .
    moreover have "{(pr, n)} \<union> ?E = ?F"
      using True pr by auto
    ultimately show ?thesis using step by simp
  next
    case False
    have eq: "?E = ?F" using False by auto
    define imp' where
      "imp' = (if i = [] \<or> is_local_value P ini gi i then imp else insert i imp)"
    have none: "i \<noteq> [] \<Longrightarrow> P i = None" using False by simp
    have step: "inputs_loop gi ini P n (i # xs) (imp, maps) =
        inputs_loop gi ini P n xs (imp', maps)"
      using none by (simp add: inputs_loop_Cons imp'_def del: inputs_loop.simps(2))
    have "adds maps ?E (snd (inputs_loop gi ini P n xs (imp', maps)))"
      using Cons [of maps imp'] .
    then show ?thesis using step eq by simp
  qed
qed

lemma analysis_result:
  "fst (map_node_dependencies gr maps) = implicit_of gr \<and> finite (implicit_of gr) \<and>
   adds maps (graph_edges gr) (snd (map_node_dependencies gr maps))"
  "fst (nodes_loop gi ini ns st) = fst (snd st) \<union> nodes_implicit gi ini ns (fst st) \<and>
   finite (nodes_implicit gi ini ns (fst st)) \<and>
   adds (snd (snd st)) (nodes_edges ns (fst st)) (snd (nodes_loop gi ini ns st))"
  "set (fst (attributes_loop attrs acc)) = set (fst acc) \<union> attrs_implicit attrs \<and>
   finite (attrs_implicit attrs) \<and>
   adds (snd acc) (attrs_edges attrs) (snd (attributes_loop attrs acc))"
proof (induction gr maps and gi ini ns st and attrs acc
    rule: map_node_dependencies_nodes_loop_attributes_loop.induct)
  case (1 nodes gin gout vinfo inits maps)
  then show ?case by simp
next
  case (2 gi ini producers implicit_inputs maps)
  then show ?case by (simp add: adds_empty)
next
  case (3 gi ini n ins outs attrs rest producers implicit_inputs maps)
  obtain inputs maps1 where a: "attributes_loop attrs (ins, maps) = (inputs, maps1)"
    by (cases "attributes_loop attrs (ins, maps)")
  obtain imp1 maps2 where b:
    "inputs_loop gi ini producers n inputs (implicit_inputs, maps1) = (imp1, maps2)"
    by (cases "inputs_loop gi ini producers n inputs (implicit_inputs, maps1)")
  have s: "set inputs = set ins \<union> attrs_implicit attrs"
    and fa: "finite (attrs_implicit attrs)"
    and e1: "adds maps (attrs_edges attrs) maps1"
    using "3.IH"(1) a by simp_all
  have i1: "imp1 = implicit_inputs \<union>
      {i \<in> set inputs. i \<noteq> [] \<and> \<not> is_local_value producers ini gi i}"
    using inputs_loop_implicit [of gi ini producers n inputs implicit_inputs maps1] b
    by simp
  have e2: "adds maps1 {(b, n) | b. \<exists>i \<in> set inputs. i \<noteq> [] \<and> producers i = Some b} maps2"
    using inputs_loop_adds [of maps1 n inputs producers gi ini implicit_inputs] b by simp
  note ih = "3.IH"(2) [OF a [symmetric] b [symmetric]]
  have r: "fst (nodes_loop gi ini rest (outputs_loop n outs producers, imp1, maps2)) =
         imp1 \<union> nodes_implicit gi ini rest (outputs_loop n outs producers)"
      "finite (nodes_implicit gi ini rest (outputs_loop n outs producers))"
      "adds maps2 (nodes_edges rest (outputs_loop n outs producers))
         (snd (nodes_loop gi ini rest (outputs_loop n outs producers, imp1, maps2)))"
    using ih by simp_all
  have e: "adds maps (attrs_edges attrs
        \<union> {(b, n) | b. \<exists>i \<in> set inputs. i \<noteq> [] \<and> producers i = Some b}
        \<union> nodes_edges rest (outputs_loop n outs producers))
        (snd (nodes_loop gi ini rest (outputs_loop n outs producers, imp1, maps2)))"
    using adds_trans [OF adds_trans [OF e1 e2] r(3)] .
  have c1: "fst (nodes_loop gi ini (Node n ins outs attrs # rest) (producers, implicit_inputs, maps))
      = implicit_inputs \<union> nodes_implicit gi ini (Node n ins outs attrs # rest) producers"
    using r(1) a b i1 s by (auto simp: Un_assoc)
  have c2: "finite (nodes_implicit gi ini (Node n ins outs attrs # rest) producers)"
    using r(2) fa by simp
  have c3: "adds maps (nodes_edges (Node n ins outs attrs # rest) producers)
      (snd (nodes_loop gi ini (Node n ins outs attrs # rest) (producers, implicit_inputs, maps)))"
    using e a b s by simp
  show ?case using c1 c2 c3 by simp
next
  case (4 acc)
  then show ?case by (simp add: adds_empty)
next
  case (5 nm rest inputs maps)
  then show ?case by simp
next
  case (6 nm sg rest inputs maps)
  obtain sub maps1 where a: "map_node_dependencies sg maps = (sub, maps1)"
    by (cases "map_node_dependencies sg maps")
  have s: "sub = implicit_of sg" and f: "finite (implicit_of sg)"
    and e1: "adds maps (graph_edges sg) maps1"
    using "6.IH"(1) a by simp_all
  note ih = "6.IH"(2) [OF a [symmetric]]
  have "adds maps (graph_edges sg \<union> attrs_edges rest)
      (snd (attributes_loop rest (inputs @ sorted_list_of_set sub, maps1)))"
    using adds_trans [OF e1] ih by simp
  then show ?case using ih a f s by auto
qed

section \<open>Producers, scopes and edges\<close>

lemma outputs_loop_apply:
  "outputs_loop n outs P v = (if v \<in> set outs then Some n else P v)"
  by (induction outs arbitrary: P) auto

lemma producers_after_append:
  "producers_after (xs @ ys) P = producers_after ys (producers_after xs P)"
  by (induction xs arbitrary: P) simp_all

lemma producers_after_snoc:
  "producers_after (xs @ [m]) P v =
     (if v \<in> set (node_output m) then Some (nid m) else producers_after xs P v)"
  by (simp add: producers_after_append outputs_loop_apply)

lemma producers_after_unchanged:
  "v \<notin> outputs_of xs \<Longrightarrow> producers_after xs P v = P v"
  by (induction xs arbitrary: P) (simp_all add: outputs_of_def outputs_loop_apply)

lemma producers_after_Some:
  "producers_after xs P v = Some b \<Longrightarrow>
   P v = Some b \<or> (\<exists>m \<in> set xs. b = nid m \<and> v \<in> set (node_output m))"
proof (induction xs arbitrary: P)
  case Nil
  then show ?case by simp
next
  case (Cons x xs)
  from Cons.prems have "producers_after xs (outputs_loop (nid x) (node_output x) P) v = Some b"
    by simp
  then have "outputs_loop (nid x) (node_output x) P v = Some b \<or>
      (\<exists>m \<in> set xs. b = nid m \<and> v \<in> set (node_output m))"
    by (rule Cons.IH)
  then show ?case by (auto simp: outputs_loop_apply split: if_splits)
qed

lemma producers_after_dom:
  "dom (producers_after xs P) = dom P \<union> outputs_of xs"
proof (induction xs arbitrary: P)
  case Nil
  then show ?case by (simp add: outputs_of_def)
next
  case (Cons x xs)
  have "dom (outputs_loop (nid x) (node_output x) P) = dom P \<union> set (node_output x)"
    by (auto simp: outputs_loop_apply dom_def)
  then show ?case using Cons [of "outputs_loop (nid x) (node_output x) P"]
    by (auto simp: outputs_of_def)
qed

lemma producers_after_last_writer:
  "v \<in> set (node_output m) \<Longrightarrow> v \<notin> outputs_of ys \<Longrightarrow>
   producers_after (xs @ m # ys) P v = Some (nid m)"
proof -
  assume a: "v \<in> set (node_output m)" and b: "v \<notin> outputs_of ys"
  have "producers_after (xs @ m # ys) P = producers_after ys (producers_after (xs @ [m]) P)"
    using producers_after_append [of "xs @ [m]" ys P] by simp
  then show ?thesis using a producers_after_unchanged [OF b] by (simp add: producers_after_snoc)
qed

lemma implicit_inputs_any: "fst (map_node_dependencies gr maps) = implicit_inputs gr"
  using analysis_result(1) [of gr maps] analysis_result(1) [of gr "(Map.empty, Map.empty)"]
  by (simp add: implicit_inputs_def)

lemma implicit_inputs_eq: "implicit_inputs gr = implicit_of gr"
  using analysis_result(1) [of gr "(Map.empty, Map.empty)"] by (simp add: implicit_inputs_def)

lemma effective_inputs_eq:
  "effective_inputs n = set (node_input n) \<union> attrs_implicit (attribute n)"
  using analysis_result(3) [of "attribute n" "(node_input n, Map.empty, Map.empty)"]
  by (simp add: effective_inputs_def)


lemma nodes_implicit_Cons:
  "nodes_implicit gi ini (m # rest) P =
     {i \<in> effective_inputs m. i \<noteq> [] \<and> \<not> is_local_value P ini gi i}
     \<union> nodes_implicit gi ini rest (outputs_loop (nid m) (node_output m) P)"
  by (cases m) (simp add: effective_inputs_eq)

lemma nodes_edges_Cons:
  "nodes_edges (m # rest) P =
     attrs_edges (attribute m)
     \<union> {(b, nid m) | b. \<exists>i \<in> effective_inputs m. i \<noteq> [] \<and> P i = Some b}
     \<union> nodes_edges rest (outputs_loop (nid m) (node_output m) P)"
  by (cases m) (simp add: effective_inputs_eq)

lemma nodes_edges_append:
  "nodes_edges (xs @ ys) P = nodes_edges xs P \<union> nodes_edges ys (producers_after xs P)"
  by (induction xs arbitrary: P)
     (simp_all add: nodes_edges_Cons Un_assoc del: nodes_edges.simps(2))

lemma graph_edges_eq: "graph_edges gr = nodes_edges (node gr) Map.empty"
  by (cases gr) simp

lemma implicit_of_eq:
  "implicit_of gr =
     nodes_implicit (graph_input_names gr) (initializer_names gr) (node gr) Map.empty"
  by (cases gr) (simp add: graph_input_names_def initializer_names_def)

lemma graph_nid_list_eq: "graph_nid_list gr = nodes_nid_list (node gr)"
  by (cases gr) simp

lemma nodes_nid_list_Cons:
  "nodes_nid_list (m # rest) = nid m # attrs_nid_list (attribute m) @ nodes_nid_list rest"
  by (cases m) simp

lemma nodes_nid_list_append:
  "nodes_nid_list (xs @ ys) = nodes_nid_list xs @ nodes_nid_list ys"
  by (induction xs) (simp_all add: nodes_nid_list_Cons del: nodes_nid_list.simps(2))

lemma nid_in_nodes_nid_list: "m \<in> set ns \<Longrightarrow> nid m \<in> set (nodes_nid_list ns)"
  by (induction ns) (auto simp: nodes_nid_list_Cons simp del: nodes_nid_list.simps(2))

lemma nodes_implicit_iff:
  "v \<in> nodes_implicit gi ini ns P \<longleftrightarrow>
     v \<noteq> [] \<and> (\<exists>pre n post. ns = pre @ n # post \<and> v \<in> effective_inputs n \<and>
        \<not> is_local_value (producers_after pre P) ini gi v)"
proof (induction ns arbitrary: P)
  case Nil
  then show ?case by simp
next
  case (Cons m rest)
  let ?P = "outputs_loop (nid m) (node_output m) P"
  let ?R = "\<lambda>ns P. \<exists>pre n post. ns = pre @ n # post \<and> v \<in> effective_inputs n \<and>
        \<not> is_local_value (producers_after pre P) ini gi v"
  have step: "?R (m # rest) P \<longleftrightarrow>
      (v \<in> effective_inputs m \<and> \<not> is_local_value P ini gi v) \<or> ?R rest ?P"
  proof
    assume "?R (m # rest) P"
    then obtain pre n post where d: "m # rest = pre @ n # post"
      and e: "v \<in> effective_inputs n"
      and l: "\<not> is_local_value (producers_after pre P) ini gi v" by blast
    show "(v \<in> effective_inputs m \<and> \<not> is_local_value P ini gi v) \<or> ?R rest ?P"
    proof (cases pre)
      case Nil
      then show ?thesis using d e l by simp
    next
      case (Cons p pre')
      then have "rest = pre' @ n # post" and "p = m" using d by simp_all
      then have "?R rest ?P" using e l Cons by auto
      then show ?thesis ..
    qed
  next
    assume "(v \<in> effective_inputs m \<and> \<not> is_local_value P ini gi v) \<or> ?R rest ?P"
    then show "?R (m # rest) P"
    proof
      assume "v \<in> effective_inputs m \<and> \<not> is_local_value P ini gi v"
      then have "m # rest = [] @ m # rest \<and> v \<in> effective_inputs m \<and>
          \<not> is_local_value (producers_after [] P) ini gi v" by simp
      then show ?thesis by blast
    next
      assume "?R rest ?P"
      then obtain pre n post where d: "rest = pre @ n # post"
        and e: "v \<in> effective_inputs n"
        and l: "\<not> is_local_value (producers_after pre ?P) ini gi v" by blast
      have "m # rest = (m # pre) @ n # post \<and> v \<in> effective_inputs n \<and>
          \<not> is_local_value (producers_after (m # pre) P) ini gi v"
        using d e l by simp
      then show ?thesis by blast
    qed
  qed
  have "v \<in> nodes_implicit gi ini (m # rest) P \<longleftrightarrow>
      (v \<in> effective_inputs m \<and> v \<noteq> [] \<and> \<not> is_local_value P ini gi v) \<or>
      v \<in> nodes_implicit gi ini rest ?P"
    by (simp add: nodes_implicit_Cons del: nodes_implicit.simps(2))
  then show ?case using Cons [of ?P] step by blast
qed

lemma is_local_value_after:
  "is_local_value (producers_after pre Map.empty) ini gi v \<longleftrightarrow>
     v \<in> outputs_of pre \<or> v \<in> ini \<or> v \<in> gi"
  by (simp add: is_local_value_def producers_after_dom)

lemma implicit_inputs_iff:
  "v \<in> implicit_inputs gr \<longleftrightarrow>
     v \<noteq> [] \<and> (\<exists>pre n post. node gr = pre @ n # post \<and> v \<in> effective_inputs n \<and>
        v \<notin> outputs_of pre \<and> v \<notin> initializer_names gr \<and> v \<notin> graph_input_names gr)"
  by (simp add: implicit_inputs_eq implicit_of_eq nodes_implicit_iff is_local_value_after)

lemma own_edge:
  "ns = pre @ n # post \<Longrightarrow> v \<in> effective_inputs n \<Longrightarrow> v \<noteq> [] \<Longrightarrow>
   producers_after pre P v = Some b \<Longrightarrow> (b, nid n) \<in> nodes_edges ns P"
  by (auto simp: nodes_edges_append nodes_edges_Cons simp del: nodes_edges.simps(2))

lemma edge_consumers:
  "(b, a) \<in> graph_edges gr \<longrightarrow> a \<in> set (graph_nid_list gr)"
  "(b, a) \<in> nodes_edges ns P \<longrightarrow> a \<in> set (nodes_nid_list ns)"
  "(b, a) \<in> attrs_edges attrs \<longrightarrow> a \<in> set (attrs_nid_list attrs)"
  by (induction gr and ns P and attrs rule: graph_edges_nodes_edges_attrs_edges.induct) auto

lemma scope_nids:
  "s \<in> set (graph_scopes gr) \<longrightarrow> set (graph_nid_list s) \<subseteq> set (graph_nid_list gr)"
  "s \<in> set (nodes_scopes ns) \<longrightarrow> set (graph_nid_list s) \<subseteq> set (nodes_nid_list ns)"
  "s \<in> set (attrs_scopes attrs) \<longrightarrow> set (graph_nid_list s) \<subseteq> set (attrs_nid_list attrs)"
  by (induction gr and ns and attrs rule: graph_scopes_nodes_scopes_attrs_scopes.induct) auto

lemma scope_distinct:
  "distinct (graph_nid_list gr) \<longrightarrow> s \<in> set (graph_scopes gr) \<longrightarrow> distinct (graph_nid_list s)"
  "distinct (nodes_nid_list ns) \<longrightarrow> s \<in> set (nodes_scopes ns) \<longrightarrow> distinct (graph_nid_list s)"
  "distinct (attrs_nid_list attrs) \<longrightarrow> s \<in> set (attrs_scopes attrs) \<longrightarrow>
     distinct (graph_nid_list s)"
  by (induction gr and ns and attrs rule: graph_scopes_nodes_scopes_attrs_scopes.induct) auto

lemma scope_edges:
  "distinct (graph_nid_list gr) \<longrightarrow> s \<in> set (graph_scopes gr) \<longrightarrow>
     a \<in> set (graph_nid_list s) \<longrightarrow> (b, a) \<in> graph_edges gr \<longrightarrow> (b, a) \<in> graph_edges s"
  "\<forall>P. distinct (nodes_nid_list ns) \<longrightarrow> s \<in> set (nodes_scopes ns) \<longrightarrow>
     a \<in> set (graph_nid_list s) \<longrightarrow> (b, a) \<in> nodes_edges ns P \<longrightarrow> (b, a) \<in> graph_edges s"
  "distinct (attrs_nid_list attrs) \<longrightarrow> s \<in> set (attrs_scopes attrs) \<longrightarrow>
     a \<in> set (graph_nid_list s) \<longrightarrow> (b, a) \<in> attrs_edges attrs \<longrightarrow> (b, a) \<in> graph_edges s"
proof (induction gr and ns and attrs rule: graph_scopes_nodes_scopes_attrs_scopes.induct)
  case (1 nodes gin gout vinfo inits)
  then show ?case by auto
next
  case 2
  then show ?case by simp
next
  case (3 n ins outs attrs rest)
  show ?case
  proof (intro allI impI)
    fix P
    assume d: "distinct (nodes_nid_list (Node n ins outs attrs # rest))"
      and s: "s \<in> set (nodes_scopes (Node n ins outs attrs # rest))"
      and a: "a \<in> set (graph_nid_list s)"
      and e: "(b, a) \<in> nodes_edges (Node n ins outs attrs # rest) P"
    from s have "s \<in> set (attrs_scopes attrs) \<or> s \<in> set (nodes_scopes rest)" by simp
    then show "(b, a) \<in> graph_edges s"
    proof
      assume sa: "s \<in> set (attrs_scopes attrs)"
      then have ain: "a \<in> set (attrs_nid_list attrs)" using a scope_nids(3) by blast
      then have "a \<noteq> n" and "a \<notin> set (nodes_nid_list rest)" using d by auto
      then have "(b, a) \<in> attrs_edges attrs" using e edge_consumers(2) by auto
      then show ?thesis using "3.IH"(1) d sa a by simp
    next
      assume sr: "s \<in> set (nodes_scopes rest)"
      then have ain: "a \<in> set (nodes_nid_list rest)" using a scope_nids(2) by blast
      then have "a \<noteq> n" and "a \<notin> set (attrs_nid_list attrs)" using d by auto
      then have "(b, a) \<in> nodes_edges rest (outputs_loop n outs P)"
        using e edge_consumers(3) by auto
      then show ?thesis using "3.IH"(2) d sr a by auto
    qed
  qed
next
  case 4
  then show ?case by simp
next
  case (5 nm rest)
  then show ?case by simp
next
  case (6 nm sg rest)
  show ?case
  proof (intro impI)
    assume d: "distinct (attrs_nid_list (Attribute nm (Some sg) # rest))"
      and s: "s \<in> set (attrs_scopes (Attribute nm (Some sg) # rest))"
      and a: "a \<in> set (graph_nid_list s)"
      and e: "(b, a) \<in> attrs_edges (Attribute nm (Some sg) # rest)"
    from s have "s \<in> set (graph_scopes sg) \<or> s \<in> set (attrs_scopes rest)" by simp
    then show "(b, a) \<in> graph_edges s"
    proof
      assume sa: "s \<in> set (graph_scopes sg)"
      then have ain: "a \<in> set (graph_nid_list sg)" using a scope_nids(1) by blast
      then have "a \<notin> set (attrs_nid_list rest)" using d by auto
      then have "(b, a) \<in> graph_edges sg" using e edge_consumers(3) by auto
      then show ?thesis using "6.IH"(1) d sa a by simp
    next
      assume sr: "s \<in> set (attrs_scopes rest)"
      then have ain: "a \<in> set (attrs_nid_list rest)" using a scope_nids(3) by blast
      then have "a \<notin> set (graph_nid_list sg)" using d by auto
      then have "(b, a) \<in> attrs_edges rest" using e edge_consumers(1) by auto
      then show ?thesis using "6.IH"(2) d sr a by simp
    qed
  qed
qed

lemma own_edge_only:
  assumes d: "distinct (nodes_nid_list ns)" and ns: "ns = pre @ n # post"
    and e: "(b, nid n) \<in> nodes_edges ns P"
  shows "\<exists>v \<in> effective_inputs n. v \<noteq> [] \<and> producers_after pre P v = Some b"
proof -
  have l: "nodes_nid_list ns =
      nodes_nid_list pre @ nid n # attrs_nid_list (attribute n) @ nodes_nid_list post"
    using ns by (simp add: nodes_nid_list_append nodes_nid_list_Cons del: nodes_nid_list.simps(2))
  have 1: "nid n \<notin> set (nodes_nid_list pre)" and 2: "nid n \<notin> set (attrs_nid_list (attribute n))"
    and 3: "nid n \<notin> set (nodes_nid_list post)"
    using d l by auto
  have "(b, nid n) \<in> nodes_edges pre P \<union> attrs_edges (attribute n)
      \<union> {(b, nid n) | b. \<exists>i \<in> effective_inputs n. i \<noteq> [] \<and> producers_after pre P i = Some b}
      \<union> nodes_edges post (outputs_loop (nid n) (node_output n) (producers_after pre P))"
    using e ns by (simp add: nodes_edges_append nodes_edges_Cons Un_assoc del: nodes_edges.simps(2))
  moreover have "(b, nid n) \<notin> nodes_edges pre P" using 1 edge_consumers(2) by blast
  moreover have "(b, nid n) \<notin> attrs_edges (attribute n)" using 2 edge_consumers(3) by blast
  moreover have "(b, nid n) \<notin>
      nodes_edges post (outputs_loop (nid n) (node_output n) (producers_after pre P))"
    using 3 edge_consumers(2) by blast
  ultimately show ?thesis by auto
qed

lemma distinct_nids_inj:
  "distinct (nodes_nid_list ns) \<Longrightarrow> m \<in> set ns \<Longrightarrow> m' \<in> set ns \<Longrightarrow> nid m = nid m' \<Longrightarrow>
   m = m'"
proof (induction ns)
  case Nil
  then show ?case by simp
next
  case (Cons x xs)
  have d: "nid x \<notin> set (nodes_nid_list xs)" and dx: "distinct (nodes_nid_list xs)"
    using Cons.prems(1) by (simp_all add: nodes_nid_list_Cons del: nodes_nid_list.simps(2))
  have out: "\<And>y. y \<in> set xs \<Longrightarrow> nid y \<noteq> nid x"
    using d nid_in_nodes_nid_list by force
  show ?case
  proof (cases "m = x")
    case True
    then show ?thesis using Cons.prems(3,4) out by auto
  next
    case False
    then have mx: "m \<in> set xs" using Cons.prems(2) by simp
    then have "m' \<noteq> x" using out Cons.prems(4) by auto
    then have "m' \<in> set xs" using Cons.prems(3) by simp
    then show ?thesis using Cons.IH dx mx Cons.prems(4) by blast
  qed
qed

section \<open>Invariants of the two dictionaries\<close>

lemma create_link_nonempty:
  "nonempty_values (fst maps) \<and> nonempty_values (snd maps) \<Longrightarrow>
   nonempty_values (fst (create_producer_consumer_link (fst maps) (snd maps) pr co)) \<and>
   nonempty_values (snd (create_producer_consumer_link (fst maps) (snd maps) pr co))"
  by (auto simp: create_producer_consumer_link_def nonempty_values_def Let_def)

lemma inputs_loop_nonempty:
  "nonempty_values (fst maps) \<and> nonempty_values (snd maps) \<Longrightarrow>
   nonempty_values (fst (snd (inputs_loop gi ini P n xs (imp, maps)))) \<and>
   nonempty_values (snd (snd (inputs_loop gi ini P n xs (imp, maps))))"
proof (induction xs arbitrary: imp maps)
  case Nil
  then show ?case by simp
next
  case (Cons i xs)
  show ?case
  proof (cases "P i")
    case None
    then show ?thesis using Cons.prems Cons.IH [of maps imp] Cons.IH [of maps "insert i imp"]
      by (simp add: inputs_loop_Cons del: inputs_loop.simps(2))
  next
    case (Some pr)
    then have "is_local_value P ini gi i" by (auto simp: is_local_value_def)
    moreover have "nonempty_values
         (fst (snd (inputs_loop gi ini P n xs
            (imp, create_producer_consumer_link (fst maps) (snd maps) pr n)))) \<and>
       nonempty_values
         (snd (snd (inputs_loop gi ini P n xs
            (imp, create_producer_consumer_link (fst maps) (snd maps) pr n))))"
      using create_link_nonempty [OF Cons.prems, of pr n] by (rule Cons.IH)
    ultimately show ?thesis
      using Some Cons.prems Cons.IH [of maps imp]
      by (simp add: inputs_loop_Cons del: inputs_loop.simps(2))
  qed
qed

lemma nonempty_preserved:
  "nonempty_values (fst maps) \<and> nonempty_values (snd maps) \<longrightarrow>
   nonempty_values (fst (snd (map_node_dependencies gr maps))) \<and>
   nonempty_values (snd (snd (map_node_dependencies gr maps)))"
  "nonempty_values (fst (snd (snd st))) \<and> nonempty_values (snd (snd (snd st))) \<longrightarrow>
   nonempty_values (fst (snd (nodes_loop gi ini ns st))) \<and>
   nonempty_values (snd (snd (nodes_loop gi ini ns st)))"
  "nonempty_values (fst (snd acc)) \<and> nonempty_values (snd (snd acc)) \<longrightarrow>
   nonempty_values (fst (snd (attributes_loop attrs acc))) \<and>
   nonempty_values (snd (snd (attributes_loop attrs acc)))"
proof (induction gr maps and gi ini ns st and attrs acc
    rule: map_node_dependencies_nodes_loop_attributes_loop.induct)
  case (1 nodes gin gout vinfo inits maps)
  then show ?case by simp
next
  case (2 gi ini producers implicit_inputs maps)
  then show ?case by simp
next
  case (3 gi ini n ins outs attrs rest producers implicit_inputs maps)
  obtain inputs maps1 where a: "attributes_loop attrs (ins, maps) = (inputs, maps1)"
    by (cases "attributes_loop attrs (ins, maps)")
  obtain imp1 maps2 where b:
    "inputs_loop gi ini producers n inputs (implicit_inputs, maps1) = (imp1, maps2)"
    by (cases "inputs_loop gi ini producers n inputs (implicit_inputs, maps1)")
  note ih = "3.IH"(2) [OF a [symmetric] b [symmetric]]
  show ?case
  proof
    assume "nonempty_values (fst (snd (snd (producers, implicit_inputs, maps)))) \<and>
      nonempty_values (snd (snd (snd (producers, implicit_inputs, maps))))"
    then have "nonempty_values (fst maps1) \<and> nonempty_values (snd maps1)"
      using "3.IH"(1) a by simp
    then have "nonempty_values (fst maps2) \<and> nonempty_values (snd maps2)"
      using inputs_loop_nonempty [of maps1 gi ini producers n inputs implicit_inputs] b by simp
    then show "nonempty_values (fst (snd (nodes_loop gi ini (Node n ins outs attrs # rest)
          (producers, implicit_inputs, maps)))) \<and>
       nonempty_values (snd (snd (nodes_loop gi ini (Node n ins outs attrs # rest)
          (producers, implicit_inputs, maps))))"
      using ih a b by simp
  qed
next
  case (4 acc)
  then show ?case by simp
next
  case (5 nm rest inputs maps)
  then show ?case by simp
next
  case (6 nm sg rest inputs maps)
  obtain sub maps1 where a: "map_node_dependencies sg maps = (sub, maps1)"
    by (cases "map_node_dependencies sg maps")
  note ih = "6.IH"(2) [OF a [symmetric]]
  show ?case using "6.IH"(1) ih a by simp
qed

lemma example_graph_maps:
  "snd (get_producer_consumer_maps no_hash example_graph) =
     Inr ([3 \<mapsto> {1, 2}, 4 \<mapsto> {3}], [1 \<mapsto> {3}, 2 \<mapsto> {3}, 3 \<mapsto> {4}])"
  by (simp add: get_producer_consumer_maps_def example_graph_def no_hash_def
      is_local_value_def create_producer_consumer_link_def Let_def fun_upd_twist insert_commute)

text \<open>
  Claim C1. Whenever \<open>get_producer_consumer_maps\<close> succeeds on a graph, the two returned
  dictionaries mirror each other: for all nodes \<open>a\<close> and \<open>b\<close>, \<open>b\<close> is a member of
  \<open>node_to_consumers[a]\<close> if and only if \<open>a\<close> is a member of \<open>node_to_producers[b]\<close>.
\<close>

theorem maps_mirror:
  "snd (get_producer_consumer_maps s gr) = Inr (node_to_producers, node_to_consumers) \<Longrightarrow>
   member_of node_to_consumers a b = member_of node_to_producers b a"
proof -
  assume r: "snd (get_producer_consumer_maps s gr) = Inr (node_to_producers, node_to_consumers)"
  have "snd (map_node_dependencies gr (Map.empty, Map.empty)) =
      (node_to_producers, node_to_consumers)"
    using r by (auto simp: get_producer_consumer_maps_def Let_def split: prod.splits if_splits)
  then have "adds (Map.empty, Map.empty) (graph_edges gr) (node_to_producers, node_to_consumers)"
    using analysis_result(1) [of gr "(Map.empty, Map.empty)"] by simp
  then show ?thesis by (simp add: adds_def member_of_def)
qed

theorem maps_mirror_witness:
  "snd (get_producer_consumer_maps no_hash example_graph) =
     Inr ([3 \<mapsto> {1, 2}, 4 \<mapsto> {3}], [1 \<mapsto> {3}, 2 \<mapsto> {3}, 3 \<mapsto> {4}]) \<and>
   member_of [1 \<mapsto> {3}, 2 \<mapsto> {3}, 3 \<mapsto> {4}] 1 3 \<and>
   member_of [3 \<mapsto> {1, 2}, 4 \<mapsto> {3::nat}] 3 1"
  using maps_mirror [OF example_graph_maps, of 1 3] example_graph_maps
  by (simp add: member_of_def)

text \<open>
  Claim C9. Whenever \<open>get_producer_consumer_maps\<close> succeeds, every key present in either
  returned dictionary maps to a non-empty set: a node is a key of \<open>node_to_producers\<close>
  only if it has a producer and of \<open>node_to_consumers\<close> only if it has a consumer, and
  a node without dependencies is absent rather than mapped to the empty set.
\<close>

theorem maps_partial:
  "snd (get_producer_consumer_maps s gr) = Inr (node_to_producers, node_to_consumers) \<Longrightarrow>
   (\<forall>k S. node_to_producers k = Some S \<longrightarrow> S \<noteq> {}) \<and>
   (\<forall>k S. node_to_consumers k = Some S \<longrightarrow> S \<noteq> {}) \<and>
   (\<forall>k. k \<in> dom node_to_producers \<longleftrightarrow> (\<exists>b. member_of node_to_producers k b)) \<and>
   (\<forall>k. k \<in> dom node_to_consumers \<longleftrightarrow> (\<exists>b. member_of node_to_consumers k b))"
proof -
  assume r: "snd (get_producer_consumer_maps s gr) = Inr (node_to_producers, node_to_consumers)"
  have "snd (map_node_dependencies gr (Map.empty, Map.empty)) =
      (node_to_producers, node_to_consumers)"
    using r by (auto simp: get_producer_consumer_maps_def Let_def split: prod.splits if_splits)
  then show ?thesis
    using nonempty_preserved(1) [of "(Map.empty, Map.empty)" gr]
    by (simp add: nonempty_values_def member_of_def dom_def split: option.splits)
      (metis all_not_in_conv option.inject)
qed

theorem maps_partial_witness:
  "snd (get_producer_consumer_maps no_hash example_graph) =
     Inr ([3 \<mapsto> {1, 2}, 4 \<mapsto> {3}], [1 \<mapsto> {3}, 2 \<mapsto> {3}, 3 \<mapsto> {4}]) \<and>
   dom [3 \<mapsto> {1, 2}, 4 \<mapsto> {3::nat}] = {3, 4::nat} \<and>
   [3 \<mapsto> {1, 2}, 4 \<mapsto> {3::nat}] (3::nat) \<noteq> Some {} \<and>
   [1 \<mapsto> {3}, 2 \<mapsto> {3}, 3 \<mapsto> {4::nat}] (1::nat) \<noteq> Some {}"
  using maps_partial [OF example_graph_maps] example_graph_maps
  by auto

section \<open>The hash of the node type\<close>

text \<open>
  Claim C10. Every call of \<open>get_producer_consumer_maps\<close>, whether it returns the
  dictionaries or raises, leaves the hash of the node type replaced by the identity
  hash: afterwards the hash of every node, in the analysed graph or not, is its object
  identity, and the replacement stays in the state the call returns.
\<close>

theorem hash_replaced:
  "fst (get_producer_consumer_maps s gr) = s\<lparr>NodeProto_hash := (\<lambda>self. Some (nid self))\<rparr> \<and>
   NodeProto_hash (fst (get_producer_consumer_maps s gr)) any_node = Some (nid any_node)"
  by (simp add: get_producer_consumer_maps_def Let_def split: prod.splits)

section \<open>Fixed-shape predicate\<close>

lemma all_dims_fixed_iff:
  "all_dims_fixed ds = (\<forall>d \<in> set ds. \<exists>v. dim_val d = DimValue v \<and> 0 < v)"
  by (induction ds) (auto split: dim_value.splits)

lemma is_fixed_size_tensor_iff:
  "is_fixed_size_tensor val =
     (\<exists>et sh. vi_type val = TensorType et sh \<and>
        (\<forall>d \<in> set (shape_dim sh). \<exists>v. dim_val d = DimValue v \<and> 0 < v))"
  by (cases val; cases "vi_type val")
     (simp_all add: is_fixed_size_tensor_def shape_truthy_def all_dims_fixed_iff)

text \<open>
  Claim C6. \<open>is_fixed_size_tensor\<close> is true for a value that has a tensor type, a
  declared shape and in every dimension a concrete integer greater than zero, a scalar
  (a declared shape without dimensions) included; it is false for a value without a
  tensor type and for a symbolic, unknown or non-positive dimension. For a tensor
  without a declared shape, where the claim and the docstring of the function ask for
  false, it is true: \<^verbatim>\<open>if shape:\<close> holds for the empty message too, and the loop over
  no dimension leaves \<^verbatim>\<open>is_fixed\<close> set.
\<close>

theorem fixed_size_without_shape:
  "is_fixed_size_tensor (ValueInfo ''x'' (TensorType 1 None)) \<and>
   is_fixed_size_tensor (ValueInfo ''x'' (TensorType 1 (Some []))) \<and>
   is_fixed_size_tensor (ValueInfo ''x'' (TensorType 1 (Some
      [Dimension (DimValue 1) [], Dimension (DimValue 3) [],
       Dimension (DimValue 224) [], Dimension (DimValue 224) []]))) \<and>
   \<not> is_fixed_size_tensor (ValueInfo ''x'' (TensorType 1 (Some
      [Dimension (DimParam ''N'') [], Dimension (DimValue 3) [],
       Dimension (DimValue 224) [], Dimension (DimValue 224) []]))) \<and>
   \<not> is_fixed_size_tensor (ValueInfo ''x'' (TensorType 1 (Some
      [Dimension (DimValue 0) []]))) \<and>
   \<not> is_fixed_size_tensor (ValueInfo ''x'' (TensorType 1 (Some
      [Dimension DimUnset []]))) \<and>
   \<not> is_fixed_size_tensor (ValueInfo ''x'' OtherType)"
  by (simp add: is_fixed_size_tensor_def shape_truthy_def shape_dim_def)

section \<open>Properties of the dimension fixer\<close>

lemma clear_and_set_ok: "in_int64 v \<Longrightarrow> clear_and_set v = (Dimension (DimValue v) [], Inr ())"
  by (simp add: clear_and_set_def)

lemma update_dims_ok:
  "in_int64 val \<Longrightarrow> update_dims name val ds = (map (fix_dim name val) ds, Inr ())"
  by (induction ds) (simp_all add: clear_and_set_ok fix_dim_def)

lemma update_value_info_ok:
  "in_int64 val \<Longrightarrow>
   update_value_info name val vi = (map_dims_value_info (fix_dim name val) vi, Inr ())"
  by (induction "fix_dim name val" vi rule: map_dims_value_info.induct)
     (simp_all add: shape_truthy_def shape_dim_def update_dims_ok)

lemma update_dim_values_ok:
  "in_int64 val \<Longrightarrow>
   update_dim_values name val vis = (map (map_dims_value_info (fix_dim name val)) vis, Inr ())"
  by (induction vis) (simp_all add: update_value_info_ok)

lemma replace_symbolic_dim_value_ok:
  "in_int64 val \<Longrightarrow>
   replace_symbolic_dim_value name val (Graph nodes gin gout vinfo inits) =
     (Graph nodes (map (map_dims_value_info (fix_dim name val)) gin)
        (map (map_dims_value_info (fix_dim name val)) gout)
        (map (map_dims_value_info (fix_dim name val)) vinfo) inits, Inr ())"
  by (simp add: replace_symbolic_dim_value_def update_dim_values_ok)

lemma map_dims_value_info_id: "map_dims_value_info (\<lambda>d. d) vi = vi"
  by (induction "\<lambda>d::dimension. d" vi rule: map_dims_value_info.induct) simp_all

lemma map_dims_value_infos_id: "map (map_dims_value_info (\<lambda>d. d)) vis = vis"
  by (induction vis) (simp_all add: map_dims_value_info_id)

lemma map_dims_id:
  "map_dims (\<lambda>d. d) gr = gr"
  "map_dims_nodes (\<lambda>d. d) ns = ns"
  "map_dims_attributes (\<lambda>d. d) attrs = attrs"
  by (induction "\<lambda>d::dimension. d" gr and "\<lambda>d::dimension. d" ns and "\<lambda>d::dimension. d" attrs
      rule: map_dims_map_dims_nodes_map_dims_attributes.induct)
     (simp_all add: map_dims_value_infos_id)

lemma iterate_replace:
  assumes "in_int64 val"
  shows "iterate_graph_per_graph_func (replace_symbolic_dim_value name val) gr =
     (map_dims (fix_dim name val) gr, Inr ())"
  and "iterate_nodes (replace_symbolic_dim_value name val) ns =
     (map_dims_nodes (fix_dim name val) ns, Inr ())"
  and "iterate_attributes (replace_symbolic_dim_value name val) attrs =
     (map_dims_attributes (fix_dim name val) attrs, Inr ())"
  by (induction "replace_symbolic_dim_value name val" gr
        and "replace_symbolic_dim_value name val" ns
        and "replace_symbolic_dim_value name val" attrs
      rule: iterate_graph_per_graph_func_iterate_nodes_iterate_attributes.induct)
     (simp_all add: replace_symbolic_dim_value_ok [OF assms])

lemma make_dim_param_fixed_eq:
  "in_int64 val \<Longrightarrow>
   make_dim_param_fixed gr name val = (map_dims (fix_dim name val) gr, Inr ())"
  by (simp add: make_dim_param_fixed_def iterate_replace)

text \<open>
  Claim C8, amended. Fixing a named symbolic dimension to an integer of the signed
  64-bit range succeeds and rewrites every dimension with that symbolic name in the
  declared inputs, outputs and intermediate value-infos of the graph and of every nested
  subgraph to the integer, and leaves every other dimension and every other field as it
  was.
\<close>

theorem dim_param_fixed_everywhere:
  "in_int64 val \<Longrightarrow>
   make_dim_param_fixed gr name val = (map_dims (fix_dim name val) gr, Inr ())"
  by (rule make_dim_param_fixed_eq)

theorem dim_param_fixed_everywhere_witness:
  "in_int64 8 \<and>
   make_dim_param_fixed batch_graph ''batch'' 8 =
     (Graph [Node 1 [''in''] [''mid''] [Attribute ''body'' (Some
              (Graph [] [] [ValueInfo ''r'' (TensorType 1 (Some
                 [Dimension (DimValue 8) [], Dimension (DimParam ''seq'') []]))] [] []))]]
       [ValueInfo ''in'' (TensorType 1 (Some
          [Dimension (DimValue 8) [], Dimension (DimValue 3) [],
           Dimension (DimValue 224) [], Dimension (DimValue 224) []]))]
       [ValueInfo ''out'' (TensorType 1 None)]
       [ValueInfo ''mid'' (TensorType 1 (Some
          [Dimension (DimValue 8) [], Dimension DimUnset []]))]
       [Tensor ''w''], Inr ())"
  using dim_param_fixed_everywhere [of 8 batch_graph "''batch''"]
  by (simp add: in_int64_def batch_graph_def fix_dim_def)

text \<open>
  Fixing \<open>batch\<close> to \<open>2 ^ 63\<close> raises at the first dimension with that name: the dimension
  is left cleared, and the other dimensions named \<open>batch\<close>, in the value-info and in the
  nested subgraph, keep the name.
\<close>

theorem dim_param_fixed_everywhere_counterexample:
  "make_dim_param_fixed batch_graph ''batch'' 9223372036854775808 =
     (Graph [Node 1 [''in''] [''mid''] [Attribute ''body'' (Some
              (Graph [] [] [ValueInfo ''r'' (TensorType 1 (Some
                 [Dimension (DimParam ''batch'') ''d'', Dimension (DimParam ''seq'') []]))] [] []))]]
       [ValueInfo ''in'' (TensorType 1 (Some
          [Dimension DimUnset [], Dimension (DimValue 3) [],
           Dimension (DimValue 224) [], Dimension (DimValue 224) []]))]
       [ValueInfo ''out'' (TensorType 1 None)]
       [ValueInfo ''mid'' (TensorType 1 (Some
          [Dimension (DimParam ''batch'') [], Dimension DimUnset []]))]
       [Tensor ''w''], Inl (ValueOutOfRange 9223372036854775808))"
  by (simp add: make_dim_param_fixed_def batch_graph_def replace_symbolic_dim_value_def
      shape_truthy_def shape_dim_def clear_and_set_def in_int64_def)

lemma find_input_Some:
  "find_input name xs j0 = Some j \<Longrightarrow> j0 \<le> j \<and> j - j0 < length xs"
proof (induction xs arbitrary: j0)
  case Nil
  then show ?case by simp
next
  case (Cons x xs)
  show ?case
  proof (cases "vi_name x = name")
    case True
    then show ?thesis using Cons.prems by simp
  next
    case False
    then have "find_input name xs (j0 + 1) = Some j" using Cons.prems by simp
    then have "j0 + 1 \<le> j \<and> j - (j0 + 1) < length xs" by (rule Cons.IH)
    then show ?thesis by auto
  qed
qed

lemma graph_input_map_dims:
  "graph_input (map_dims f gr) = map (map_dims_value_info f) (graph_input gr)"
  by (cases gr) simp

lemma is_tensor_map_dims_value_info: "is_tensor (map_dims_value_info f vi) = is_tensor vi"
  by (induction f vi rule: map_dims_value_info.induct) (simp_all add: is_tensor_def)

lemma dims_map_dims_value_info:
  "(case vi_type (map_dims_value_info f vi) of TensorType et sh \<Rightarrow> shape_dim sh | OtherType \<Rightarrow> [])
     = map f (case vi_type vi of TensorType et sh \<Rightarrow> shape_dim sh | OtherType \<Rightarrow> [])"
  by (induction f vi rule: map_dims_value_info.induct) (simp_all add: shape_dim_def)

lemma input_dims_map_dims:
  "j < length (graph_input gr) \<Longrightarrow> input_dims (map_dims f gr) j = map f (input_dims gr j)"
  by (simp add: input_dims_def graph_input_map_dims dims_map_dims_value_info)

lemma is_tensor_map_dims:
  "j < length (graph_input gr) \<Longrightarrow>
   is_tensor (graph_input (map_dims f gr) ! j) = is_tensor (graph_input gr ! j)"
  by (simp add: graph_input_map_dims is_tensor_map_dims_value_info)

lemma set_input_dim_ok:
  "in_int64 v \<Longrightarrow> set_input_dim gr j idx v = (fst (set_input_dim gr j idx v), Inr ())"
  by (cases "graph_input gr ! j"; cases "vi_type (graph_input gr ! j)")
     (simp_all add: set_input_dim_def clear_and_set_ok)

lemma graph_input_set_input_dim:
  "length (graph_input (fst (set_input_dim gr j idx v))) = length (graph_input gr)"
  by (cases "graph_input gr ! j"; cases "vi_type (graph_input gr ! j)")
     (simp_all add: set_input_dim_def split: prod.splits)

lemma is_tensor_set_input_dim:
  "j < length (graph_input gr) \<Longrightarrow>
   is_tensor (graph_input (fst (set_input_dim gr j idx v)) ! j) = is_tensor (graph_input gr ! j)"
  by (cases "graph_input gr ! j"; cases "vi_type (graph_input gr ! j)")
     (simp_all add: set_input_dim_def is_tensor_def split: prod.splits)

lemma input_dims_set_input_dim:
  "in_int64 v \<Longrightarrow> j < length (graph_input gr) \<Longrightarrow> is_tensor (graph_input gr ! j) \<Longrightarrow>
   input_dims (fst (set_input_dim gr j idx v)) j =
     (input_dims gr j)[idx := Dimension (DimValue v) []]"
  by (cases "graph_input gr ! j"; cases "vi_type (graph_input gr ! j)")
     (simp_all add: set_input_dim_def is_tensor_def input_dims_def shape_dim_def clear_and_set_ok)

lemma found_value_0:
  "found_value (h # t) (f # fs) 0 = Some d \<longleftrightarrow> dim_val h = DimValue d"
  by (simp add: found_value_def split: dim_value.splits)

lemma found_value_skip:
  "dim_val h = DimValue w \<or> dim_val h = DimUnset \<Longrightarrow>
   found_value (h # t) (f # fs) (Suc i) = found_value t fs i"
  by (auto simp add: found_value_def split: dim_value.splits)

lemma map_of_fix_dim:
  "q \<noteq> p \<Longrightarrow>
   map_of (zip (map (dim_val \<circ> fix_dim p f) xs) fs) (DimParam q) =
     map_of (zip (map dim_val xs) fs) (DimParam q)"
proof (induction xs arbitrary: fs)
  case Nil
  then show ?case by simp
next
  case (Cons x xs)
  then show ?case by (cases fs) (simp_all add: fix_dim_def)
qed

lemma found_value_fixed:
  "dim_val h = DimParam p \<Longrightarrow> i < length t \<Longrightarrow>
   found_value (h # t) (f # fs) (Suc i) = found_value (map (fix_dim p f) t) fs i"
  by (cases "dim_val (t ! i) = DimParam p")
     (auto simp add: found_value_def take_map map_of_fix_dim fix_dim_def
        split: dim_value.splits)

lemma dims_loop_first_conflict:
  "j < length (graph_input gr) \<Longrightarrow> is_tensor (graph_input gr ! j) \<Longrightarrow>
   length (input_dims gr j) = idx + length fs \<Longrightarrow> m < length fs \<Longrightarrow>
   \<forall>i < m. in_int64 (fs ! i) \<Longrightarrow>
   found_value (drop idx (input_dims gr j)) fs m = Some d \<Longrightarrow> d \<noteq> fs ! m \<Longrightarrow>
   \<forall>i < m. \<forall>d'. found_value (drop idx (input_dims gr j)) fs i = Some d' \<longrightarrow> d' = fs ! i \<Longrightarrow>
   snd (dims_loop j idx fs gr) = Inl (ValueConflict d (fs ! m) (idx + m + 1))"
proof (induction fs arbitrary: idx gr m)
  case Nil
  then show ?case by simp
next
  case (Cons f fs)
  let ?ds = "input_dims gr j"
  let ?h = "?ds ! idx"
  let ?t = "drop (Suc idx) ?ds"
  have len: "idx < length ?ds" using Cons.prems(3) by simp
  have dr: "drop idx ?ds = ?h # ?t" using len by (simp add: Cons_nth_drop_Suc)
  have lt: "length ?t = length fs" using Cons.prems(3) by simp
  show ?case
  proof (cases m)
    case 0
    then have "dim_val ?h = DimValue d" using Cons.prems(6) dr by (simp add: found_value_0)
    then show ?thesis using Cons.prems(7) 0 by simp
  next
    case (Suc m0)
    have m0: "m0 < length fs" using Cons.prems(4) Suc by simp
    have rf: "in_int64 f" using Cons.prems(5) Suc by force
    have rng: "\<forall>i < m0. in_int64 (fs ! i)"
    proof (intro allI impI)
      fix i assume "i < m0"
      then have "Suc i < m" using Suc by simp
      then show "in_int64 (fs ! i)" using Cons.prems(5) [rule_format, of "Suc i"] by simp
    qed
    have fv: "found_value (?h # ?t) (f # fs) (Suc m0) = Some d"
      using Cons.prems(6) dr Suc by simp
    have ne: "d \<noteq> fs ! m0" using Cons.prems(7) Suc by simp
    have head: "\<forall>d'. dim_val ?h = DimValue d' \<longrightarrow> d' = f"
      using Cons.prems(8) [rule_format, of 0] dr Suc by (simp add: found_value_0)
    have later: "\<forall>i < m0. \<forall>d'. found_value (?h # ?t) (f # fs) (Suc i) = Some d' \<longrightarrow> d' = fs ! i"
    proof (intro allI impI)
      fix i d' assume "i < m0" and a: "found_value (?h # ?t) (f # fs) (Suc i) = Some d'"
      then have "Suc i < m" using Suc by simp
      then show "d' = fs ! i" using Cons.prems(8) [rule_format, of "Suc i" d'] a dr by simp
    qed
    show ?thesis
    proof (cases "dim_val ?h")
      case (DimValue w)
      then have w: "w = f" using head by simp
      have sk: "\<And>i. found_value (?h # ?t) (f # fs) (Suc i) = found_value ?t fs i"
        using DimValue by (simp add: found_value_skip)
      have "snd (dims_loop j (Suc idx) fs gr) = Inl (ValueConflict d (fs ! m0) (Suc idx + m0 + 1))"
      proof (rule Cons.IH)
        show "j < length (graph_input gr)" by (rule Cons.prems(1))
        show "is_tensor (graph_input gr ! j)" by (rule Cons.prems(2))
        show "length (input_dims gr j) = Suc idx + length fs" using Cons.prems(3) by simp
        show "m0 < length fs" by (rule m0)
        show "\<forall>i < m0. in_int64 (fs ! i)" by (rule rng)
        show "found_value ?t fs m0 = Some d" using fv sk by simp
        show "d \<noteq> fs ! m0" by (rule ne)
        show "\<forall>i < m0. \<forall>d'. found_value ?t fs i = Some d' \<longrightarrow> d' = fs ! i"
          using later sk by simp
      qed
      then show ?thesis using DimValue w Suc by simp
    next
      case DimUnset
      let ?gr = "fst (set_input_dim gr j idx f)"
      obtain gr1 where s: "set_input_dim gr j idx f = (gr1, Inr ())"
        using set_input_dim_ok [OF rf, of gr j idx] by (cases "set_input_dim gr j idx f") auto
      have ds': "input_dims ?gr j = ?ds[idx := Dimension (DimValue f) []]"
        using rf Cons.prems(1,2) by (rule input_dims_set_input_dim)
      have t': "drop (Suc idx) (input_dims ?gr j) = ?t" using ds' by simp
      have sk: "\<And>i. found_value (?h # ?t) (f # fs) (Suc i) = found_value ?t fs i"
        using DimUnset by (simp add: found_value_skip)
      have "snd (dims_loop j (Suc idx) fs ?gr) = Inl (ValueConflict d (fs ! m0) (Suc idx + m0 + 1))"
      proof (rule Cons.IH)
        show "j < length (graph_input ?gr)"
          using Cons.prems(1) by (simp add: graph_input_set_input_dim)
        show "is_tensor (graph_input ?gr ! j)"
          using Cons.prems(1,2) by (simp add: is_tensor_set_input_dim)
        show "length (input_dims ?gr j) = Suc idx + length fs"
          using Cons.prems(3) ds' by simp
        show "m0 < length fs" by (rule m0)
        show "\<forall>i < m0. in_int64 (fs ! i)" by (rule rng)
        show "found_value (drop (Suc idx) (input_dims ?gr j)) fs m0 = Some d"
          using fv sk t' by simp
        show "d \<noteq> fs ! m0" by (rule ne)
        show "\<forall>i < m0. \<forall>d'. found_value (drop (Suc idx) (input_dims ?gr j)) fs i = Some d'
            \<longrightarrow> d' = fs ! i"
          using later sk t' by simp
      qed
      then show ?thesis using DimUnset s Suc by simp
    next
      case (DimParam p)
      let ?gr = "map_dims (fix_dim p f) gr"
      have s: "make_dim_param_fixed gr p f = (?gr, Inr ())"
        using rf by (rule make_dim_param_fixed_eq)
      have ds': "input_dims ?gr j = map (fix_dim p f) ?ds"
        using Cons.prems(1) by (rule input_dims_map_dims)
      have t': "drop (Suc idx) (input_dims ?gr j) = map (fix_dim p f) ?t"
        using ds' by (simp add: drop_map)
      have sk: "\<And>i. i < length fs \<Longrightarrow>
          found_value (?h # ?t) (f # fs) (Suc i) = found_value (map (fix_dim p f) ?t) fs i"
        using DimParam lt by (simp add: found_value_fixed)
      have "snd (dims_loop j (Suc idx) fs ?gr) = Inl (ValueConflict d (fs ! m0) (Suc idx + m0 + 1))"
      proof (rule Cons.IH)
        show "j < length (graph_input ?gr)"
          using Cons.prems(1) by (simp add: graph_input_map_dims)
        show "is_tensor (graph_input ?gr ! j)"
          using Cons.prems(1,2) by (simp add: is_tensor_map_dims)
        show "length (input_dims ?gr j) = Suc idx + length fs"
          using Cons.prems(3) ds' by simp
        show "m0 < length fs" by (rule m0)
        show "\<forall>i < m0. in_int64 (fs ! i)" by (rule rng)
        show "found_value (drop (Suc idx) (input_dims ?gr j)) fs m0 = Some d"
          using fv sk [OF m0] t' by simp
        show "d \<noteq> fs ! m0" by (rule ne)
        show "\<forall>i < m0. \<forall>d'. found_value (drop (Suc idx) (input_dims ?gr j)) fs i = Some d'
            \<longrightarrow> d' = fs ! i"
        proof (intro allI impI)
          fix i d'
          assume i: "i < m0"
            and a: "found_value (drop (Suc idx) (input_dims ?gr j)) fs i = Some d'"
          have "i < length fs" using i m0 by simp
          then have "found_value (?h # ?t) (f # fs) (Suc i) = Some d'"
            using a sk t' by simp
          then show "d' = fs ! i" using later i by simp
        qed
      qed
      then show ?thesis using DimParam s Suc by simp
    qed
  qed
qed

lemma input_shape_rank_mismatch:
  "find_input input_name (graph_input gr) 0 = Some j \<Longrightarrow>
   vi_type (graph_input gr ! j) = TensorType et sh \<Longrightarrow>
   length (shape_dim sh) \<noteq> length fixed_shape \<Longrightarrow>
   snd (make_input_shape_fixed gr input_name fixed_shape) =
     Inl (RankMismatch (length (shape_dim sh)) (length fixed_shape))"
  by (simp add: make_input_shape_fixed_def)

lemma input_shape_loop:
  "find_input input_name (graph_input gr) 0 = Some j \<Longrightarrow>
   vi_type (graph_input gr ! j) = TensorType et sh \<Longrightarrow>
   length (shape_dim sh) = length fixed_shape \<Longrightarrow>
   make_input_shape_fixed gr input_name fixed_shape = dims_loop j 0 fixed_shape gr \<and>
   j < length (graph_input gr) \<and> is_tensor (graph_input gr ! j) \<and>
   input_dims gr j = shape_dim sh"
  using find_input_Some [of input_name "graph_input gr" 0 j]
  by (simp add: make_input_shape_fixed_def is_tensor_def input_dims_def)

lemma input_shape_first_conflict:
  assumes f: "find_input input_name (graph_input gr) 0 = Some j"
    and t: "vi_type (graph_input gr ! j) = TensorType et sh"
    and r: "length (shape_dim sh) = length fixed_shape"
    and k: "k < length fixed_shape"
    and rng: "\<forall>i < k. in_int64 (fixed_shape ! i)"
    and fv: "found_value (shape_dim sh) fixed_shape k = Some d"
    and ne: "d \<noteq> fixed_shape ! k"
    and first: "\<forall>i < k. \<forall>d'. found_value (shape_dim sh) fixed_shape i = Some d'
        \<longrightarrow> d' = fixed_shape ! i"
  shows "snd (make_input_shape_fixed gr input_name fixed_shape) =
           Inl (ValueConflict d (fixed_shape ! k) (k + 1))"
proof -
  note l = input_shape_loop [OF f t r]
  have 1: "j < length (graph_input gr)" and 2: "is_tensor (graph_input gr ! j)"
    and 3: "length (input_dims gr j) = 0 + length fixed_shape"
    and 6: "found_value (drop 0 (input_dims gr j)) fixed_shape k = Some d"
    and 8: "\<forall>i < k. \<forall>d'. found_value (drop 0 (input_dims gr j)) fixed_shape i = Some d'
        \<longrightarrow> d' = fixed_shape ! i"
    using l r fv first by simp_all
  show ?thesis using dims_loop_first_conflict [OF 1 2 3 k rng 6 ne 8] l by simp
qed

text \<open>
  Claim C7, amended. Let the named input exist and be a tensor. If the rank of the
  requested shape differs from the declared rank, the operation fails with the
  rank-mismatch error. If a dimension of the declared shape holds a fixed value that
  differs from the requested value at the same position, and the values requested
  before that position are in the signed 64-bit range, the operation fails with a
  conflict error. The error reports the value found, the value requested and the
  position counted from one (index plus one) of the first dimension found in conflict:
  the first position where the value found (\<open>found_value\<close>: the declared fixed value, or
  for a symbolic dimension the value requested at the first earlier position of the same
  name) differs from the requested one. It is the dimension of the hypothesis when no
  earlier position is in conflict.
\<close>

theorem input_shape_errors:
  "find_input input_name (graph_input gr) 0 = Some j \<Longrightarrow>
   vi_type (graph_input gr ! j) = TensorType et sh \<Longrightarrow>
   (length (shape_dim sh) \<noteq> length fixed_shape \<longrightarrow>
      snd (make_input_shape_fixed gr input_name fixed_shape) =
        Inl (RankMismatch (length (shape_dim sh)) (length fixed_shape))) \<and>
   (length (shape_dim sh) = length fixed_shape \<and> k < length fixed_shape \<and>
    dim_val (shape_dim sh ! k) = DimValue v \<and> v \<noteq> fixed_shape ! k \<and>
    (\<forall>i < k. in_int64 (fixed_shape ! i)) \<longrightarrow>
      (\<exists>k' d. k' \<le> k \<and> found_value (shape_dim sh) fixed_shape k' = Some d \<and>
         d \<noteq> fixed_shape ! k' \<and>
         (\<forall>i < k'. \<forall>d'. found_value (shape_dim sh) fixed_shape i = Some d'
            \<longrightarrow> d' = fixed_shape ! i) \<and>
         snd (make_input_shape_fixed gr input_name fixed_shape) =
           Inl (ValueConflict d (fixed_shape ! k') (k' + 1))) \<and>
      ((\<forall>i < k. \<forall>d'. found_value (shape_dim sh) fixed_shape i = Some d'
            \<longrightarrow> d' = fixed_shape ! i) \<longrightarrow>
         snd (make_input_shape_fixed gr input_name fixed_shape) =
           Inl (ValueConflict v (fixed_shape ! k) (k + 1))))"
proof (intro conjI impI)
  assume f: "find_input input_name (graph_input gr) 0 = Some j"
    and t: "vi_type (graph_input gr ! j) = TensorType et sh"
  {
    assume "length (shape_dim sh) \<noteq> length fixed_shape"
    then show "snd (make_input_shape_fixed gr input_name fixed_shape) =
        Inl (RankMismatch (length (shape_dim sh)) (length fixed_shape))"
      using f t by (rule input_shape_rank_mismatch [rotated 2])
  }
  {
    assume a: "length (shape_dim sh) = length fixed_shape \<and> k < length fixed_shape \<and>
      dim_val (shape_dim sh ! k) = DimValue v \<and> v \<noteq> fixed_shape ! k \<and>
      (\<forall>i < k. in_int64 (fixed_shape ! i))"
    then have r: "length (shape_dim sh) = length fixed_shape" and k: "k < length fixed_shape"
      and ne: "v \<noteq> fixed_shape ! k" and rng: "\<forall>i < k. in_int64 (fixed_shape ! i)"
      and fv: "found_value (shape_dim sh) fixed_shape k = Some v"
      by (simp_all add: found_value_def)
    let ?C = "\<lambda>i. \<exists>d. found_value (shape_dim sh) fixed_shape i = Some d \<and> d \<noteq> fixed_shape ! i"
    define k' where "k' = (LEAST i. ?C i)"
    have ck: "?C k" using fv ne by simp
    have le: "k' \<le> k" unfolding k'_def using ck by (rule Least_le)
    have "?C k'" unfolding k'_def using ck by (rule LeastI)
    then obtain d where d: "found_value (shape_dim sh) fixed_shape k' = Some d"
      "d \<noteq> fixed_shape ! k'" by blast
    have first: "\<forall>i < k'. \<forall>d'. found_value (shape_dim sh) fixed_shape i = Some d'
        \<longrightarrow> d' = fixed_shape ! i"
    proof (intro allI impI)
      fix i d' assume lt: "i < k'" and fi: "found_value (shape_dim sh) fixed_shape i = Some d'"
      from lt have "\<not> ?C i" unfolding k'_def by (rule not_less_Least)
      then show "d' = fixed_shape ! i" using fi by simp
    qed
    have k'l: "k' < length fixed_shape" using le k by simp
    have rng': "\<forall>i < k'. in_int64 (fixed_shape ! i)" using rng le by simp
    have "snd (make_input_shape_fixed gr input_name fixed_shape) =
        Inl (ValueConflict d (fixed_shape ! k') (k' + 1))"
      using f t r k'l rng' d first by (rule input_shape_first_conflict)
    then show "\<exists>k' d. k' \<le> k \<and> found_value (shape_dim sh) fixed_shape k' = Some d \<and>
         d \<noteq> fixed_shape ! k' \<and>
         (\<forall>i < k'. \<forall>d'. found_value (shape_dim sh) fixed_shape i = Some d'
            \<longrightarrow> d' = fixed_shape ! i) \<and>
         snd (make_input_shape_fixed gr input_name fixed_shape) =
           Inl (ValueConflict d (fixed_shape ! k') (k' + 1))"
      using le d first by blast
    {
      assume first: "\<forall>i < k. \<forall>d'. found_value (shape_dim sh) fixed_shape i = Some d'
            \<longrightarrow> d' = fixed_shape ! i"
      show "snd (make_input_shape_fixed gr input_name fixed_shape) =
           Inl (ValueConflict v (fixed_shape ! k) (k + 1))"
        using f t r k rng fv ne first by (rule input_shape_first_conflict)
    }
  }
qed

lemma image_graph_input:
  "find_input ''x'' (graph_input image_graph) 0 = Some 0"
  "vi_type (graph_input image_graph ! 0) = TensorType 1 (Some
          [Dimension (DimValue 1) [], Dimension (DimValue 3) [],
           Dimension (DimValue 224) [], Dimension (DimValue 224) []])"
  by (simp_all add: image_graph_def)

theorem input_shape_errors_witness:
  "snd (make_input_shape_fixed image_graph ''x'' [1, 3, 224]) = Inl (RankMismatch 4 3) \<and>
   snd (make_input_shape_fixed image_graph ''x'' [1, 3, 224, 225]) =
     Inl (ValueConflict 224 225 4)"
proof
  show "snd (make_input_shape_fixed image_graph ''x'' [1, 3, 224]) = Inl (RankMismatch 4 3)"
    using input_shape_errors [OF image_graph_input, of "[1, 3, 224]" 0 1]
    by (simp add: shape_dim_def)
  show "snd (make_input_shape_fixed image_graph ''x'' [1, 3, 224, 225]) =
     Inl (ValueConflict 224 225 4)"
    using input_shape_errors [OF image_graph_input, of "[1, 3, 224, 225]" 3 224]
    by (simp add: shape_dim_def found_value_def in_int64_def nth_Cons' less_Suc_eq
        all_conj_distrib numeral_3_eq_3)
qed

text \<open>
  With the first and third dimensions named \<open>N\<close>, requesting \<open>[2, 3, 4, 225]\<close> stops at the
  third dimension, where the loop finds the 2 it has just stored for \<open>N\<close>: the conflict
  reported is that one, before the declared 224 is compared with 225.
\<close>

lemma input_shape_symbolic_conflict:
  "snd (make_input_shape_fixed symbolic_graph ''x'' [2, 3, 4, 225]) =
     Inl (ValueConflict 2 4 3)"
  by (simp add: make_input_shape_fixed_def symbolic_graph_def shape_dim_def input_dims_def
      make_dim_param_fixed_def replace_symbolic_dim_value_def shape_truthy_def
      clear_and_set_def in_int64_def)

text \<open>
  Fixing the input declared \<open>[1, 3, 224, 224]\<close> to \<open>[1, 3, 224, 225]\<close> reports dimension 4,
  not the index 3. Fixing the input declared \<open>[unknown, 3]\<close> to \<open>[2 ^ 63, 4]\<close> raises the
  range error at the first dimension; the second, in conflict, is never compared.
\<close>

theorem input_shape_conflict_index_counterexample:
  "snd (make_input_shape_fixed image_graph ''x'' [1, 3, 224, 225]) =
     Inl (ValueConflict 224 225 4) \<and>
   snd (make_input_shape_fixed image_graph ''x'' [1, 3, 224, 225]) \<noteq>
     Inl (ValueConflict 224 225 3) \<and>
   snd (make_input_shape_fixed unknown_dim_graph ''x'' [9223372036854775808, 4]) =
     Inl (ValueOutOfRange 9223372036854775808)"
  by (simp add: make_input_shape_fixed_def image_graph_def unknown_dim_graph_def shape_dim_def
      input_dims_def set_input_dim_def clear_and_set_def in_int64_def)

section \<open>The error of the outermost scope\<close>

lemma finite_implicit_inputs: "finite (implicit_inputs gr)"
  using analysis_result(1) [of gr "(Map.empty, Map.empty)"] by (simp add: implicit_inputs_eq)

lemma get_maps_result:
  "snd (get_producer_consumer_maps s gr) =
    (if implicit_inputs gr \<noteq> {}
     then Inl (MissingInputs (str_join '','' (sorted_list_of_set (implicit_inputs gr))))
     else Inr (snd (map_node_dependencies gr (Map.empty, Map.empty))))"
  by (simp add: get_producer_consumer_maps_def implicit_inputs_def Let_def split: prod.splits)

text \<open>
  Claim C2. \<open>get_producer_consumer_maps\<close> raises exactly when the set of implicit
  inputs of the root scope is not empty. That set holds the non-empty names that some
  node of the root references, directly or as an implicit input of one of its nested
  subgraphs, and that are neither produced by an earlier node of the root, nor an
  initializer, nor a declared input of the root. The message of the error lists the
  names of the set, each once, in sorted order, joined by commas. Otherwise the call
  returns the two dictionaries.
\<close>

theorem missing_inputs_error:
  "((\<exists>e. snd (get_producer_consumer_maps s gr) = Inl e) \<longleftrightarrow> implicit_inputs gr \<noteq> {}) \<and>
   (implicit_inputs gr \<noteq> {} \<longrightarrow>
      (\<exists>names. snd (get_producer_consumer_maps s gr) = Inl (MissingInputs (str_join '','' names)) \<and>
         sorted names \<and> distinct names \<and> set names = implicit_inputs gr)) \<and>
   (implicit_inputs gr = {} \<longrightarrow>
      snd (get_producer_consumer_maps s gr) =
        Inr (snd (map_node_dependencies gr (Map.empty, Map.empty)))) \<and>
   implicit_inputs gr =
     {v. v \<noteq> [] \<and> (\<exists>pre n post. node gr = pre @ n # post \<and> v \<in> effective_inputs n \<and>
        v \<notin> outputs_of pre \<and> v \<notin> initializer_names gr \<and> v \<notin> graph_input_names gr)}"
proof (intro conjI impI)
  show "(\<exists>e. snd (get_producer_consumer_maps s gr) = Inl e) \<longleftrightarrow> implicit_inputs gr \<noteq> {}"
    by (simp add: get_maps_result)
  show "implicit_inputs gr =
     {v. v \<noteq> [] \<and> (\<exists>pre n post. node gr = pre @ n # post \<and> v \<in> effective_inputs n \<and>
        v \<notin> outputs_of pre \<and> v \<notin> initializer_names gr \<and> v \<notin> graph_input_names gr)}"
    using implicit_inputs_iff [of _ gr] by blast
next
  assume "implicit_inputs gr = {}"
  then show "snd (get_producer_consumer_maps s gr) =
        Inr (snd (map_node_dependencies gr (Map.empty, Map.empty)))"
    by (simp add: get_maps_result)
next
  assume n: "implicit_inputs gr \<noteq> {}"
  let ?names = "sorted_list_of_set (implicit_inputs gr)"
  have "snd (get_producer_consumer_maps s gr) = Inl (MissingInputs (str_join '','' ?names)) \<and>
      sorted ?names \<and> distinct ?names \<and> set ?names = implicit_inputs gr"
    using n finite_implicit_inputs [of gr] by (simp add: get_maps_result)
  then show "\<exists>names. snd (get_producer_consumer_maps s gr) =
        Inl (MissingInputs (str_join '','' names)) \<and>
      sorted names \<and> distinct names \<and> set names = implicit_inputs gr"
    by blast
qed

lemma missing_graph_implicit: "implicit_inputs missing_graph = {''zeta'', ''alpha'', ''beta''}"
  by (simp add: implicit_inputs_def missing_graph_def is_local_value_def
      create_producer_consumer_link_def Let_def insert_commute)

lemma sorted_names: "sorted [''alpha'', ''beta'', ''zeta''] \<and> distinct [''alpha'', ''beta'', ''zeta'']"
  by code_simp

lemma example_graph_implicit: "implicit_inputs example_graph = {}"
  by (simp add: implicit_inputs_def example_graph_def is_local_value_def
      create_producer_consumer_link_def Let_def)

theorem missing_inputs_error_witness:
  "snd (get_producer_consumer_maps no_hash missing_graph) =
     Inl (MissingInputs ''alpha,beta,zeta'') \<and>
   (\<exists>maps. snd (get_producer_consumer_maps no_hash example_graph) = Inr maps)"
proof
  have ne: "implicit_inputs missing_graph \<noteq> {}" by (simp add: missing_graph_implicit)
  obtain names where r: "snd (get_producer_consumer_maps no_hash missing_graph) =
        Inl (MissingInputs (str_join '','' names))"
    and s: "sorted names" "distinct names" "set names = implicit_inputs missing_graph"
    using missing_inputs_error [of no_hash missing_graph, THEN conjunct2, THEN conjunct1,
        rule_format, OF ne]
    by (elim exE conjE)
  have "set names = set [''alpha'', ''beta'', ''zeta'']"
    using s(3) by (simp add: missing_graph_implicit) blast
  then have "names = [''alpha'', ''beta'', ''zeta'']"
    using s(1,2) sorted_names by (intro sorted_distinct_set_unique) simp_all
  then show "snd (get_producer_consumer_maps no_hash missing_graph) =
     Inl (MissingInputs ''alpha,beta,zeta'')" using r by simp
  show "\<exists>maps. snd (get_producer_consumer_maps no_hash example_graph) = Inr maps"
    using missing_inputs_error [of no_hash example_graph, THEN conjunct2, THEN conjunct2,
        THEN conjunct1, rule_format, OF example_graph_implicit]
    by (rule exI)
qed

section \<open>Order, nesting and shadowing\<close>

lemma result_producers:
  "member_of (fst (snd (map_node_dependencies gr maps))) a b \<longleftrightarrow>
     member_of (fst maps) a b \<or> (b, a) \<in> graph_edges gr"
  using analysis_result(1) [of gr maps] by (simp add: adds_def)

lemma result_consumers:
  "member_of (snd (snd (map_node_dependencies gr maps))) a b \<longleftrightarrow>
     member_of (snd maps) a b \<or> (a, b) \<in> graph_edges gr"
  using analysis_result(1) [of gr maps] by (simp add: adds_def)

lemma member_of_empty: "\<not> member_of Map.empty a b"
  by (simp add: member_of_def)

lemma built_producers: "member_of (fst (built_maps gr)) a b \<longleftrightarrow> (b, a) \<in> graph_edges gr"
  by (simp add: built_maps_def result_producers member_of_empty)

lemma built_consumers: "member_of (snd (built_maps gr)) a b \<longleftrightarrow> (a, b) \<in> graph_edges gr"
  by (simp add: built_maps_def result_consumers member_of_empty)

lemma distinct_map_nid: "distinct (nodes_nid_list ns) \<Longrightarrow> distinct (map nid ns)"
proof (induction ns)
  case Nil
  then show ?case by simp
next
  case (Cons x xs)
  have d: "nid x \<notin> set (nodes_nid_list xs)" and dx: "distinct (nodes_nid_list xs)"
    using Cons.prems by (simp_all add: nodes_nid_list_Cons del: nodes_nid_list.simps(2))
  have "nid x \<notin> nid ` set xs" using d nid_in_nodes_nid_list by force
  then show ?case using Cons.IH [OF dx] by simp
qed


lemma producers_in_scope:
  assumes d: "distinct (graph_nid_list gr)" and s: "s \<in> set (graph_scopes gr)"
    and n: "node s = pre @ A # post" and e: "(b, nid A) \<in> graph_edges gr"
  shows "b \<in> nid ` set pre"
proof -
  have ds: "distinct (nodes_nid_list (node s))"
    using scope_distinct(1) d s by (simp add: graph_nid_list_eq)
  have "nid A \<in> set (graph_nid_list s)"
    using n nid_in_nodes_nid_list [of A "node s"] by (simp add: graph_nid_list_eq)
  then have "(b, nid A) \<in> nodes_edges (node s) Map.empty"
    using scope_edges(1) d s e by (simp add: graph_edges_eq)
  then obtain v where "producers_after pre Map.empty v = Some b"
    using own_edge_only [OF ds n] by blast
  then show ?thesis using producers_after_Some [of pre Map.empty v b] by auto
qed

lemmas eval_simps = implicit_inputs_def built_maps_def is_local_value_def
  create_producer_consumer_link_def Let_def member_of_def effective_inputs_def
  outputs_of_def graph_input_names_def initializer_names_def
  get_producer_consumer_maps_def no_hash_def

lemma scope_edges_subset:
  "s \<in> set (graph_scopes gr) \<longrightarrow> graph_edges s \<subseteq> graph_edges gr"
  "\<forall>P. s \<in> set (nodes_scopes ns) \<longrightarrow> graph_edges s \<subseteq> nodes_edges ns P"
  "s \<in> set (attrs_scopes attrs) \<longrightarrow> graph_edges s \<subseteq> attrs_edges attrs"
  by (induction gr and ns and attrs rule: graph_scopes_nodes_scopes_attrs_scopes.induct) auto

lemma returned_maps_built:
  "snd (get_producer_consumer_maps s gr) = Inr maps \<Longrightarrow> maps = built_maps gr"
  by (simp add: get_maps_result built_maps_def split: if_splits)

text \<open>
  Claim C5, amended. In a graph whose nodes are different objects, take any scope and
  any node \<open>A\<close> of it. Every producer recorded for \<open>A\<close> is a node that precedes \<open>A\<close> in
  the node sequence of that scope; in particular no edge goes from a node \<open>B\<close> listed
  after \<open>A\<close> to \<open>A\<close>. A non-empty name that \<open>A\<close> references and that no earlier node of
  the scope produces is added to the implicit inputs of the scope, unless it is a
  declared input or an initializer of the scope.
\<close>

theorem document_order:
  "distinct (graph_nid_list gr) \<Longrightarrow> s \<in> set (graph_scopes gr) \<Longrightarrow> node s = pre @ A # post \<Longrightarrow>
   (\<forall>b. member_of (fst (built_maps gr)) (nid A) b \<longrightarrow> b \<in> nid ` set pre) \<and>
   (\<forall>B \<in> set post. \<not> member_of (fst (built_maps gr)) (nid A) (nid B) \<and>
                    \<not> member_of (snd (built_maps gr)) (nid B) (nid A)) \<and>
   (\<forall>v. v \<in> effective_inputs A \<and> v \<noteq> [] \<and> v \<notin> outputs_of pre \<and>
        v \<notin> graph_input_names s \<and> v \<notin> initializer_names s \<longrightarrow> v \<in> implicit_inputs s)"
proof (intro conjI allI ballI impI)
  assume d: "distinct (graph_nid_list gr)" and s: "s \<in> set (graph_scopes gr)"
    and n: "node s = pre @ A # post"
  have dm: "distinct (map nid (node s))"
    using scope_distinct(1) d s distinct_map_nid by (simp add: graph_nid_list_eq)
  {
    fix b assume "member_of (fst (built_maps gr)) (nid A) b"
    then show "b \<in> nid ` set pre"
      using producers_in_scope [OF d s n] by (simp add: built_producers)
  }
  {
    fix B assume B: "B \<in> set post"
    have nb: "nid B \<notin> nid ` set pre" using dm n B by auto
    then show "\<not> member_of (fst (built_maps gr)) (nid A) (nid B)"
      using producers_in_scope [OF d s n] by (auto simp: built_producers)
    show "\<not> member_of (snd (built_maps gr)) (nid B) (nid A)"
      using nb producers_in_scope [OF d s n] by (auto simp: built_consumers)
  }
  {
    fix v assume "v \<in> effective_inputs A \<and> v \<noteq> [] \<and> v \<notin> outputs_of pre \<and>
        v \<notin> graph_input_names s \<and> v \<notin> initializer_names s"
    then show "v \<in> implicit_inputs s" using n implicit_inputs_iff [of v s] by blast
  }
qed

lemma order_graph_scope:
  "distinct (graph_nid_list order_graph)"
  "Graph [Node 3 [''q''] [''r''] [], Node 4 [''r'', ''a''] [''q''] []] [] [] [] []
     \<in> set (graph_scopes order_graph)"
  by (simp_all add: order_graph_def)

theorem document_order_witness:
  "\<not> member_of (fst (built_maps order_graph)) 3 4 \<and>
   \<not> member_of (snd (built_maps order_graph)) 4 3 \<and>
   member_of (fst (built_maps order_graph)) 4 3 \<and>
   ''q'' \<in> implicit_inputs
      (Graph [Node 3 [''q''] [''r''] [], Node 4 [''r'', ''a''] [''q''] []] [] [] [] [])"
proof -
  let ?s = "Graph [Node 3 [''q''] [''r''] [], Node 4 [''r'', ''a''] [''q''] []] [] [] [] []"
  have n: "node ?s = [] @ Node 3 [''q''] [''r''] [] # [Node 4 [''r'', ''a''] [''q''] []]"
    by simp
  note t = document_order [OF order_graph_scope n]
  have "\<not> member_of (fst (built_maps order_graph)) (nid (Node 3 [''q''] [''r''] []))
            (nid (Node 4 [''r'', ''a''] [''q''] [])) \<and>
        \<not> member_of (snd (built_maps order_graph)) (nid (Node 4 [''r'', ''a''] [''q''] []))
            (nid (Node 3 [''q''] [''r''] []))"
    by (rule t [THEN conjunct2, THEN conjunct1, rule_format]) simp
  then have 1: "\<not> member_of (fst (built_maps order_graph)) 3 4"
    and 2: "\<not> member_of (snd (built_maps order_graph)) 4 3"
    by simp_all
  have 3: "''q'' \<in> implicit_inputs ?s"
    by (rule t [THEN conjunct2, THEN conjunct2, rule_format])
       (simp add: effective_inputs_def outputs_of_def graph_input_names_def
        initializer_names_def)
  have 4: "member_of (fst (built_maps order_graph)) 4 3"
    by (simp add: eval_simps order_graph_def)
  show ?thesis using 1 2 3 4 by simp
qed

text \<open>
  A name that is a declared input of the scope, referenced by node 1 and produced only
  by the later node 2, is not added to the implicit inputs; neither is the empty name
  of an absent optional input when a later node has an unnamed output.
\<close>

theorem document_order_counterexample:
  "node shadowed_input_graph = [Node 1 [''x''] [''a''] [], Node 2 [] [''x''] []] \<and>
   ''x'' \<notin> implicit_inputs shadowed_input_graph \<and>
   node unnamed_output_graph = [Node 1 [''in'', []] [''a''] [], Node 2 [''a''] [''y'', []] []] \<and>
   [] \<notin> implicit_inputs unnamed_output_graph"
  by (simp add: eval_simps shadowed_input_graph_def unnamed_output_graph_def)











text \<open>
  Claim C4, amended. In any scope of a graph, let two nodes \<open>P1\<close> and then \<open>P2\<close> produce
  the non-empty name \<open>x\<close>, and let a later node \<open>C\<close> of the scope consume \<open>x\<close>, as an
  input of its own or as an implicit input of one of its subgraphs, with no producer of
  \<open>x\<close> between \<open>P2\<close> and \<open>C\<close>. Then both dictionaries link \<open>P2\<close> and \<open>C\<close>. When the
  nodes of the graph are different objects and \<open>C\<close> consumes no other output of \<open>P1\<close>,
  neither dictionary links \<open>P1\<close> and \<open>C\<close>.
\<close>

theorem last_writer_wins:
  "S \<in> set (graph_scopes gr) \<Longrightarrow> node S = pre @ P1 # mid @ P2 # mid2 @ C # post \<Longrightarrow>
   x \<in> set (node_output P1) \<Longrightarrow> x \<in> set (node_output P2) \<Longrightarrow> x \<noteq> [] \<Longrightarrow>
   x \<notin> outputs_of mid2 \<Longrightarrow> x \<in> effective_inputs C \<Longrightarrow>
   member_of (fst (built_maps gr)) (nid C) (nid P2) \<and>
   member_of (snd (built_maps gr)) (nid P2) (nid C) \<and>
   (distinct (graph_nid_list gr) \<and>
    (\<forall>y \<in> effective_inputs C. y \<noteq> x \<longrightarrow> y \<notin> set (node_output P1)) \<longrightarrow>
      \<not> member_of (fst (built_maps gr)) (nid C) (nid P1) \<and>
      \<not> member_of (snd (built_maps gr)) (nid P1) (nid C))"
proof -
  assume sc: "S \<in> set (graph_scopes gr)"
    and n: "node S = pre @ P1 # mid @ P2 # mid2 @ C # post"
    and x1: "x \<in> set (node_output P1)" and x2: "x \<in> set (node_output P2)"
    and x: "x \<noteq> []" and xm: "x \<notin> outputs_of mid2" and xC: "x \<in> effective_inputs C"
  let ?pre = "pre @ P1 # mid @ P2 # mid2"
  have n': "node S = ?pre @ C # post" using n by simp
  have w: "producers_after ?pre Map.empty x = Some (nid P2)"
    using producers_after_last_writer [OF x2 xm, of "pre @ P1 # mid" Map.empty] by simp
  then have "(nid P2, nid C) \<in> nodes_edges (node S) Map.empty"
    using own_edge [OF n' xC x] by simp
  then have "(nid P2, nid C) \<in> graph_edges S" by (simp add: graph_edges_eq)
  then have pos: "(nid P2, nid C) \<in> graph_edges gr" using scope_edges_subset(1) sc by blast
  have neg: "(nid P1, nid C) \<notin> graph_edges gr"
    if d: "distinct (graph_nid_list gr)"
      and o: "\<forall>y \<in> effective_inputs C. y \<noteq> x \<longrightarrow> y \<notin> set (node_output P1)"
  proof
    assume e: "(nid P1, nid C) \<in> graph_edges gr"
    have dn: "distinct (nodes_nid_list (node S))"
      using scope_distinct(1) d sc by (simp add: graph_nid_list_eq)
    have dm: "distinct (map nid (node S))" using dn by (rule distinct_map_nid)
    have ne: "nid P1 \<noteq> nid P2" using dm n by auto
    have "nid C \<in> set (graph_nid_list S)"
      using n' nid_in_nodes_nid_list [of C "node S"] by (simp add: graph_nid_list_eq)
    then have "(nid P1, nid C) \<in> nodes_edges (node S) Map.empty"
      using scope_edges(1) d sc e by (simp add: graph_edges_eq)
    then obtain v where v: "v \<in> effective_inputs C" "v \<noteq> []"
      and pv: "producers_after ?pre Map.empty v = Some (nid P1)"
      using own_edge_only [OF dn n'] by auto
    then obtain m where m: "m \<in> set ?pre" "nid P1 = nid m" "v \<in> set (node_output m)"
      using producers_after_Some [of ?pre Map.empty v "nid P1"] by auto
    have "m \<in> set (node S)" and "P1 \<in> set (node S)" using m(1) n by auto
    then have "m = P1" using distinct_nids_inj [OF dn] m(2) by metis
    then have "v = x" using o v(1) m(3) by auto
    then show False using pv w ne by simp
  qed
  show ?thesis using pos neg by (auto simp: built_producers built_consumers)
qed

theorem last_writer_wins_witness:
  "member_of (fst (built_maps shadow_graph)) 3 2 \<and>
   member_of (snd (built_maps shadow_graph)) 2 3 \<and>
   \<not> member_of (fst (built_maps shadow_graph)) 3 1 \<and>
   \<not> member_of (snd (built_maps shadow_graph)) 1 3"
proof -
  let ?C = "Node 3 [''x''] [''z''] []"
  have sc: "shadow_graph \<in> set (graph_scopes shadow_graph)" by (simp add: shadow_graph_def)
  have n: "node shadow_graph = [] @ Node 1 [] [''x''] [] # [] @ Node 2 [] [''x''] [] # [] @ ?C # []"
    by (simp add: shadow_graph_def)
  have e: "effective_inputs ?C = {''x''}" by (simp add: effective_inputs_def)
  have d: "distinct (graph_nid_list shadow_graph)" by (simp add: shadow_graph_def)
  have "member_of (fst (built_maps shadow_graph)) (nid ?C) (nid (Node 2 [] [''x''] [])) \<and>
        member_of (snd (built_maps shadow_graph)) (nid (Node 2 [] [''x''] [])) (nid ?C) \<and>
        (distinct (graph_nid_list shadow_graph) \<and>
         (\<forall>y \<in> effective_inputs ?C. y \<noteq> ''x'' \<longrightarrow> y \<notin> set (node_output (Node 1 [] [''x''] []))) \<longrightarrow>
           \<not> member_of (fst (built_maps shadow_graph)) (nid ?C) (nid (Node 1 [] [''x''] [])) \<and>
           \<not> member_of (snd (built_maps shadow_graph)) (nid (Node 1 [] [''x''] [])) (nid ?C))"
    using last_writer_wins [OF sc n, of "''x''"]
    by (simp add: outputs_of_def e)
  then show ?thesis using d e by simp
qed

text \<open>
  Node 3 consumes \<open>x\<close> after its second producer and also \<open>y\<close>, which only the first
  producer of \<open>x\<close> produces: node 3 is linked to both.
\<close>

theorem last_writer_wins_counterexample:
  "member_of (fst (built_maps two_outputs_graph)) 3 2 \<and>
   member_of (fst (built_maps two_outputs_graph)) 3 1 \<and>
   member_of (snd (built_maps two_outputs_graph)) 1 3"
  by (simp add: eval_simps two_outputs_graph_def)

section \<open>The order of the inputs of a node\<close>

lemma links_eqI:
  assumes "nonempty_values m1" "nonempty_values m2"
    and "\<And>a b. member_of m1 a b = member_of m2 a b"
  shows "m1 = m2"
proof
  fix k
  show "m1 k = m2 k"
  proof (cases "m1 k")
    case None
    then have "\<And>b. \<not> member_of m2 k b" using assms(3) [of k, symmetric] by (simp add: member_of_def)
    then show ?thesis using None assms(2)
      by (cases "m2 k") (auto simp: member_of_def nonempty_values_def)
  next
    case (Some S)
    then have S: "S \<noteq> {}" using assms(1) by (simp add: nonempty_values_def)
    then obtain b where "b \<in> S" by blast
    then have "member_of m2 k b" using Some assms(3) [of k b] by (simp add: member_of_def)
    then obtain T where T: "m2 k = Some T" by (cases "m2 k") (simp_all add: member_of_def)
    have "\<And>b. (b \<in> S) = (b \<in> T)" using assms(3) [of k] Some T by (simp add: member_of_def)
    then show ?thesis using Some T by auto
  qed
qed

lemma inputs_loop_set_eq:
  assumes ne: "nonempty_values (fst maps) \<and> nonempty_values (snd maps)" and s: "set xs = set ys"
  shows "inputs_loop gi ini P n xs (imp, maps) = inputs_loop gi ini P n ys (imp, maps)"
proof -
  let ?a = "inputs_loop gi ini P n xs (imp, maps)"
  let ?b = "inputs_loop gi ini P n ys (imp, maps)"
  have 1: "fst ?a = fst ?b" using s by (simp add: inputs_loop_implicit)
  have ax: "adds maps {(b, n) | b. \<exists>i \<in> set xs. i \<noteq> [] \<and> P i = Some b} (snd ?a)"
    by (rule inputs_loop_adds)
  have ay: "adds maps {(b, n) | b. \<exists>i \<in> set xs. i \<noteq> [] \<and> P i = Some b} (snd ?b)"
    using inputs_loop_adds [of maps n ys P gi ini imp] s by simp
  have 2: "fst (snd ?a) = fst (snd ?b)"
    using inputs_loop_nonempty [OF ne, of gi ini P n xs imp]
      inputs_loop_nonempty [OF ne, of gi ini P n ys imp] ax ay
    by (intro links_eqI) (simp_all add: adds_def)
  have 3: "snd (snd ?a) = snd (snd ?b)"
    using inputs_loop_nonempty [OF ne, of gi ini P n xs imp]
      inputs_loop_nonempty [OF ne, of gi ini P n ys imp] ax ay
    by (intro links_eqI) (simp_all add: adds_def)
  show ?thesis using 1 2 3 by (simp add: prod_eq_iff)
qed

end
